theory Spec2Isabelle
  imports Main "HOL-Library.Multiset"
begin

section \<open>JavaScript values used by the server\<close>




text \<open>
  The errors the code can meet: the four built-in ones thrown by the language itself, and
  the rejection of an upstream call (the HTTP status of a non-2xx answer, or a transport
  failure).
\<close>

datatype js_error =
    TypeError | RangeError | ReferenceError | SyntaxError
  | ResponseError nat | NetworkError

definition lower_letters :: string where
  "lower_letters = ''abcdefghijklmnopqrstuvwxyz''"

definition upper_letters :: string where
  "upper_letters = ''ABCDEFGHIJKLMNOPQRSTUVWXYZ''"

definition toUpperCase_char :: "char \<Rightarrow> char" where
  "toUpperCase_char c =
     (case map_of (zip lower_letters upper_letters) c of Some u \<Rightarrow> u | None \<Rightarrow> c)"

definition toLowerCase_char :: "char \<Rightarrow> char" where
  "toLowerCase_char c =
     (case map_of (zip upper_letters lower_letters) c of Some l \<Rightarrow> l | None \<Rightarrow> c)"

definition toUpperCase :: "string \<Rightarrow> string" where
  "toUpperCase s = map toUpperCase_char s"

definition toLowerCase :: "string \<Rightarrow> string" where
  "toLowerCase s = map toLowerCase_char s"

text \<open>\<^verbatim>\<open>s.charAt(0)\<close> is the first code unit of \<open>s\<close>, the empty string when \<open>s\<close> is
  empty; \<^verbatim>\<open>s.slice(1)\<close> drops the first code unit.\<close>

definition charAt0 :: "'a list \<Rightarrow> 'a list" where
  "charAt0 s = take 1 s"

definition slice1 :: "'a list \<Rightarrow> 'a list" where
  "slice1 s = drop 1 s"

text \<open>\<^verbatim>\<open>arr.join(sep)\<close>.\<close>

fun js_join :: "'a list \<Rightarrow> 'a list list \<Rightarrow> 'a list" where
  "js_join sep [] = []"
| "js_join sep [x] = x"
| "js_join sep (x # y # ys) = x @ sep @ js_join sep (y # ys)"

text \<open>
  \<^verbatim>\<open>s.split(/[ -]/)\<close>: the regular expression is a character class, so every single space
  (U+0020) or hyphen (U+002D) ends the current token; the scan keeps the token read so far
  (reversed) and always returns at least one token. \<open>is_sep\<close> is the class on ASCII
  characters, \<open>is_sep_unit\<close> on code units.
\<close>

definition is_sep :: "char \<Rightarrow> bool" where
  "is_sep c = (c = CHR '' '' \<or> c = CHR ''-'')"


fun split_class :: "('a \<Rightarrow> bool) \<Rightarrow> 'a list \<Rightarrow> 'a list \<Rightarrow> 'a list list" where
  "split_class p tok [] = [rev tok]"
| "split_class p tok (c # cs) =
     (if p c then rev tok # split_class p [] cs else split_class p (c # tok) cs)"

text \<open>
  \<^verbatim>\<open>s.split(sep)\<close> with a string separator: the separator is searched from the left,
  matches do not overlap, and the pieces between the matches are returned. With the
  empty separator the string is split into its characters.
\<close>

function js_split :: "string \<Rightarrow> string \<Rightarrow> string list" where
  "js_split s sep =
     (if sep = [] then map (\<lambda>c. [c]) s
      else if s = [] then [[]]
      else if take (length sep) s = sep then [] # js_split (drop (length sep) s) sep
      else (case js_split (tl s) sep of
              [] \<Rightarrow> [[hd s]]
            | t # ts \<Rightarrow> (hd s # t) # ts))"
  by pat_completeness auto
termination
  by (relation "measure (\<lambda>(s, sep). length s)") auto

declare js_split.simps [simp del]

text \<open>\<^verbatim>\<open>arr[i]\<close> is \<^verbatim>\<open>undefined\<close> out of range; calling a method on it throws.\<close>

fun js_index :: "'a list \<Rightarrow> nat \<Rightarrow> 'a option" where
  "js_index [] i = None"
| "js_index (x # xs) 0 = Some x"
| "js_index (x # xs) (Suc i) = js_index xs i"

text \<open>\<^verbatim>\<open>s.includes(sub)\<close>.\<close>

fun js_includes :: "string \<Rightarrow> string \<Rightarrow> bool" where
  "js_includes [] sub = (sub = [])"
| "js_includes (c # cs) sub = (take (length sub) (c # cs) = sub \<or> js_includes cs sub)"

section \<open>Formatting helpers\<close>

text \<open>
  \<^verbatim>\<open>
  function formatString(str) {
    return str.split(/[ -]/)
      .map((word) => word.charAt(0).toUpperCase() + word.slice(1).toLowerCase())
      .join(" ");
  }
  \<close>
\<close>

definition formatWord :: "string \<Rightarrow> string" where
  "formatWord word = toUpperCase (charAt0 word) @ toLowerCase (slice1 word)"

definition formatString :: "string \<Rightarrow> string" where
  "formatString str = js_join '' '' (map formatWord (split_class is_sep [] str))"



subsection \<open>formatTitleCase as the specification words it\<close>






text \<open>
  \<^verbatim>\<open>
  function formatDuration(str) {
    let hasHours = str.includes("H");
    let hasMinutes = str.includes("M");
    let durationHours = hasHours ? str.split("PT")[1].split("H")[0] : "0";
    let durationMinutes; let formatted;
    if (hasHours && hasMinutes) {
      durationMinutes = str.split("PT")[1].split("H")[1].split("M")[0];
      formatted = `${durationHours} h ${durationMinutes} min`;
    } else if (hasMinutes) {
      durationMinutes = str.split("PT")[1].split("M")[0];
      formatted = `${durationMinutes} min`;
    } else { formatted = `${durationHours} h`; }
    return formatted;
  }
  \<close>
  \<^verbatim>\<open>str.split("PT")[1]\<close> is \<^verbatim>\<open>undefined\<close> when the string has no \<^verbatim>\<open>PT\<close>, and the
  following \<^verbatim>\<open>.split\<close> throws a TypeError: \<open>piece s sep i\<close> is the step
  \<^verbatim>\<open>s.split(sep)[i]\<close> followed by a method call or an interpolation of a piece that
  exists.
\<close>

definition piece :: "string \<Rightarrow> string \<Rightarrow> nat \<Rightarrow> js_error + string" where
  "piece s sep i = (case js_index (js_split s sep) i of None \<Rightarrow> Inl TypeError | Some r \<Rightarrow> Inr r)"

definition formatDuration :: "string \<Rightarrow> js_error + string" where
  "formatDuration str =
     (let hasHours = js_includes str ''H'';
          hasMinutes = js_includes str ''M''
      in case (if hasHours
               then (case piece str ''PT'' 1 of Inl e \<Rightarrow> Inl e | Inr r \<Rightarrow> piece r ''H'' 0)
               else Inr ''0'') of
           Inl e \<Rightarrow> Inl e
         | Inr durationHours \<Rightarrow>
             if hasHours \<and> hasMinutes then
               (case piece str ''PT'' 1 of Inl e \<Rightarrow> Inl e
                | Inr r \<Rightarrow>
                   (case piece r ''H'' 1 of Inl e \<Rightarrow> Inl e
                    | Inr r' \<Rightarrow>
                       (case piece r' ''M'' 0 of Inl e \<Rightarrow> Inl e
                        | Inr durationMinutes \<Rightarrow>
                            Inr (durationHours @ '' h '' @ durationMinutes @ '' min''))))
             else if hasMinutes then
               (case piece str ''PT'' 1 of Inl e \<Rightarrow> Inl e
                | Inr r \<Rightarrow>
                   (case piece r ''M'' 0 of Inl e \<Rightarrow> Inl e
                    | Inr durationMinutes \<Rightarrow> Inr (durationMinutes @ '' min'')))
             else Inr (durationHours @ '' h''))"

text \<open>
  What may follow the hour and minute components in the durations considered below, a
  seconds component for instance: any characters but \<^verbatim>\<open>P\<close>, \<^verbatim>\<open>H\<close> and \<^verbatim>\<open>M\<close>.
\<close>

definition plain_suffix :: "string \<Rightarrow> bool" where
  "plain_suffix rest =
     list_all (\<lambda>c. c \<noteq> CHR ''P'' \<and> c \<noteq> CHR ''H'' \<and> c \<noteq> CHR ''M'') rest"

section \<open>Offers\<close>

subsection \<open>The presentation model\<close>

text \<open>
  The objects \<^verbatim>\<open>getFlightOffers\<close> builds: \<^verbatim>\<open>segmentData\<close>, \<^verbatim>\<open>itineraryData\<close> and
  \<^verbatim>\<open>offerData\<close>, with the properties the source assigns. A property that is only set on
  some paths is an option.
\<close>

record segmentData =
  departureDate :: string
  arrivalDate :: string
  departureTime :: string
  arrivalTime :: string
  duration :: string
  origin :: string
  destination :: string
  carrierCode :: string
  carrierName :: string
  flightNumber :: string
  aircraft :: string
  cabin_class :: string
  stopDuration :: "string option"

record itineraryData =
  it_duration :: string
  stops :: string
  segments :: "segmentData list"
  departureAirport :: string
  it_departureTime :: string
  it_departureDate :: string
  arrivalAirport :: string
  it_arrivalTime :: string
  it_arrivalDate :: string
  priceFormatted :: "string option"
  offerId :: "string option"

record offerData =
  priceFrom :: string
  validatingAirline :: "string option"
  outbound :: "itineraryData option"
  inbounds :: "itineraryData list option"
  added :: bool

text \<open>
  \<^verbatim>\<open>
  function sameOutbound(it1, it2) {
    if (it1.segments.length != it2.segments.length) return false;
    let it1Flights = it1.segments.map((seg) => seg.carrierCode + seg.carrierName);
    let it2Flights = it2.segments.map((seg) => seg.carrierCode + seg.carrierName);
    return it1Flights.every((flight) => it2Flights.includes(flight));
  }
  \<close>
\<close>

definition flightKey :: "segmentData \<Rightarrow> string" where
  "flightKey seg = carrierCode seg @ carrierName seg"

definition sameOutbound :: "itineraryData \<Rightarrow> itineraryData \<Rightarrow> bool" where
  "sameOutbound it1 it2 =
     (if length (segments it1) \<noteq> length (segments it2) then False
      else (let it1Flights = map flightKey (segments it1);
                it2Flights = map flightKey (segments it2)
            in list_all (\<lambda>flight. flight \<in> set it2Flights) it1Flights))"

subsection \<open>The upstream answer\<close>

text \<open>
  The part of a flight-offer search answer that the server reads. The client library
  hands over the raw text \<^verbatim>\<open>res.body\<close> and its own parse \<^verbatim>\<open>res.data\<close>:
  \<open>body\<close> is what \<^verbatim>\<open>JSON.parse(res.body)\<close> returns, \<open>None\<close> when it throws a
  SyntaxError.
\<close>

record raw_price =
  currency :: string
  total :: string

record raw_segment =
  seg_id :: string
  seg_carrierCode :: string
  operating_carrierCode :: "string option"
  seg_number :: string
  aircraft_code :: string
  seg_duration :: string
  departure_iataCode :: string
  departure_at :: string
  arrival_iataCode :: string
  arrival_at :: string

record raw_itinerary =
  raw_duration :: string
  raw_segments :: "raw_segment list"

record raw_offer =
  offer_id :: string
  price :: raw_price
  validatingAirlineCodes :: "string list"
  itineraries :: "raw_itinerary list"

record raw_response =
  data :: "raw_offer list"
  carriers :: "(string \<times> string) list"
  aircraft_names :: "(string \<times> string) list"

record amadeus_response =
  body :: "raw_response option"
  sdk_data :: "raw_offer list"

datatype upstream_outcome = UpFulfilled amadeus_response | UpRejected js_error

text \<open>What a promise settles to.\<close>

datatype ('a, 'e) settled = Fulfilled 'a | Rejected 'e

subsection \<open>getFlightOffers\<close>

text \<open>
  \<^verbatim>\<open>new Intl.NumberFormat("en-US", {style: "currency", currency: c})\<close> throws a RangeError
  for a currency code that is not well formed; otherwise it gives a formatter. The
  parameter \<open>numberFormat\<close> stands for it: \<open>None\<close> is the throw.

  The callback of \<^verbatim>\<open>.then\<close> starts
  \<^verbatim>\<open>
  let response = JSON.parse(res.body);
  const currencyFormatter = new Intl.NumberFormat("en-US", {
    style: "currency", currency: response.data[0].price.currency });
  let offers = [];
  response.data.forEach((offer) => {
    let offerData = {};
    offerData.priceFrom = currencyFormatter.format(offer.price.total);
    offerData.validatingAirline = offer.validatingAirlineCodes[0];
    console.log("Price : ", priceFrom)
    offer.itineraries.forEach((itinerary, i) => { ... });
    if (!offerData.added) offers.push(offerData);
  });
  return offers;
  \<close>
  The identifier \<^verbatim>\<open>priceFrom\<close> in the \<^verbatim>\<open>console.log\<close> call is declared nowhere: not in the
  callback, not in the enclosing function, not in the module (\<open>module_scope\<close> lists the
  module's bindings) and it is no global of the runtime. Reading it throws a
  ReferenceError, in the first iteration of \<^verbatim>\<open>forEach\<close>, before any itinerary is looked
  at; the throw leaves the loop and the callback.

  \<open>processOffer\<close> is the loop body up to that statement. The statements after it, the
  loop over the itineraries and the conditional \<^verbatim>\<open>offers.push(offerData)\<close>, are never
  reached; they are the parameter \<open>remainder\<close>, which takes the \<^verbatim>\<open>offerData\<close> built so
  far, the raw offer and the offers collected, and returns the new list of offers or
  throws. Every property below holds whatever \<open>remainder\<close> does.
\<close>

type_synonym loop_remainder = "offerData \<Rightarrow> raw_offer \<Rightarrow> offerData list \<Rightarrow> js_error + offerData list"

definition module_scope :: "string list" where
  "module_scope =
     [''express'', ''format'', ''addDays'', ''bodyParser'', ''path'', ''cors'', ''dotenv'',
      ''Bottleneck'', ''swaggerJsdoc'', ''swaggerUi'', ''amadeus'', ''PORT'', ''app'',
      ''allowedOrigins'', ''AMADEUS_HOST'', ''limiterArgs'', ''limiter'',
      ''swaggerDefinition'', ''options'', ''swaggerSpec'', ''formatString'',
      ''formatDuration'', ''sameOutbound'', ''generateCalendarDatepairs'',
      ''getSearchSuggestions'', ''getFlightOffers'', ''pricesForDatepairs'']"

definition callback_scope :: "string list" where
  "callback_scope =
     [''offerData'', ''offer'', ''offers'', ''currencyFormatter'', ''response'', ''res'',
      ''originLocationCode'', ''destinationLocationCode'', ''departureDate'', ''returnDate'',
      ''adults'', ''travelClass''] @ module_scope"

definition read_identifier :: "string list \<Rightarrow> string \<Rightarrow> js_error + unit" where
  "read_identifier scope name = (if name \<in> set scope then Inr () else Inl ReferenceError)"

definition processOffer ::
  "(string \<Rightarrow> string) \<Rightarrow> loop_remainder \<Rightarrow> raw_offer \<Rightarrow> offerData list
     \<Rightarrow> js_error + offerData list" where
  "processOffer currencyFormatter remainder offer offers =
     (let offerData =
            \<lparr>priceFrom = currencyFormatter (total (price offer)),
             validatingAirline = js_index (validatingAirlineCodes offer) 0,
             outbound = None, inbounds = None, added = False\<rparr>
      in case read_identifier callback_scope ''priceFrom'' of
           Inl e \<Rightarrow> Inl e
         | Inr _ \<Rightarrow> remainder offerData offer offers)"

fun forEach_offers ::
  "(string \<Rightarrow> string) \<Rightarrow> loop_remainder \<Rightarrow> raw_offer list \<Rightarrow> offerData list
     \<Rightarrow> js_error + offerData list" where
  "forEach_offers currencyFormatter remainder [] offers = Inr offers"
| "forEach_offers currencyFormatter remainder (offer # rest) offers =
     (case processOffer currencyFormatter remainder offer offers of
        Inl e \<Rightarrow> Inl e
      | Inr offers' \<Rightarrow> forEach_offers currencyFormatter remainder rest offers')"

definition processResponse ::
  "(string \<Rightarrow> (string \<Rightarrow> string) option) \<Rightarrow> loop_remainder \<Rightarrow> amadeus_response
     \<Rightarrow> js_error + offerData list" where
  "processResponse numberFormat remainder res =
     (case body res of
        None \<Rightarrow> Inl SyntaxError
      | Some response \<Rightarrow>
          (case js_index (data response) 0 of
             None \<Rightarrow> Inl TypeError
           | Some first \<Rightarrow>
               (case numberFormat (currency (price first)) of
                  None \<Rightarrow> Inl RangeError
                | Some currencyFormatter \<Rightarrow>
                    forEach_offers currencyFormatter remainder (data response) [])))"

text \<open>
  \<^verbatim>\<open>
  return limiter.schedule(() => amadeus.shopping.flightOffersSearch.get({...}))
    .then((res) => { ... return offers; })
    .catch((err) => { return err; });
  \<close>
  The value of the returned promise is a list of offers or an error object: the
  \<^verbatim>\<open>.catch\<close> handler returns the error, so the promise is fulfilled with it.
\<close>

datatype offers_or_error = OffersValue "offerData list" | ErrorValue js_error

definition getFlightOffers ::
  "(string \<Rightarrow> (string \<Rightarrow> string) option) \<Rightarrow> loop_remainder \<Rightarrow> upstream_outcome
     \<Rightarrow> (offers_or_error, js_error) settled" where
  "getFlightOffers numberFormat remainder upstream =
     (let afterThen =
            (case upstream of
               UpRejected err \<Rightarrow> Rejected err
             | UpFulfilled res \<Rightarrow>
                 (case processResponse numberFormat remainder res of
                    Inl err \<Rightarrow> Rejected err
                  | Inr offers \<Rightarrow> Fulfilled (OffersValue offers)))
      in case afterThen of
           Rejected err \<Rightarrow> Fulfilled (ErrorValue err)
         | Fulfilled v \<Rightarrow> Fulfilled v)"

text \<open>
  \<^verbatim>\<open>
  app.get("/get-flight-offers", (req, res) => {
    getFlightOffers(...)
      .then((flights) => res.send(flights))
      .catch((err) => { console.error(err); res.status(500).send(err); });
  });
  \<close>
  \<^verbatim>\<open>res.send\<close> answers with status 200 unless \<^verbatim>\<open>res.status\<close> was called.
\<close>

record 'b http_response =
  status :: nat
  payload :: 'b

definition get_flight_offers_handler ::
  "(string \<Rightarrow> (string \<Rightarrow> string) option) \<Rightarrow> loop_remainder \<Rightarrow> upstream_outcome
     \<Rightarrow> offers_or_error http_response" where
  "get_flight_offers_handler numberFormat remainder upstream =
     (case getFlightOffers numberFormat remainder upstream of
        Fulfilled flights \<Rightarrow> \<lparr>status = 200, payload = flights\<rparr>
      | Rejected err \<Rightarrow> \<lparr>status = 500, payload = ErrorValue err\<rparr>)"

section \<open>Calendar date pairs\<close>

subsection \<open>Dates\<close>

text \<open>
  A \<^verbatim>\<open>Date\<close> is used here only through its calendar day in the server's local time:
  \<^verbatim>\<open>addDays\<close> of date-fns is \<^verbatim>\<open>date.setDate(date.getDate() + amount)\<close> and
  \<^verbatim>\<open>format(date, "yyyy-MM-dd")\<close> prints the local year, month and day. So a date is
  modelled as its local calendar day in the proleptic Gregorian calendar, and
  \<^verbatim>\<open>addDays\<close> as calendar arithmetic on it. (A zone whose local calendar skips or
  repeats a whole day inside the window, as Pacific/Apia did on 2011-12-30, is outside
  this model.)
\<close>

record civil =
  year :: int
  month :: int
  day :: int

definition leap :: "int \<Rightarrow> bool" where
  "leap y = (y mod 4 = 0 \<and> (y mod 100 \<noteq> 0 \<or> y mod 400 = 0))"

definition daysInMonth :: "int \<Rightarrow> int \<Rightarrow> int" where
  "daysInMonth y m =
     (if m = 2 then (if leap y then 29 else 28)
      else if m = 4 \<or> m = 6 \<or> m = 9 \<or> m = 11 then 30 else 31)"

definition valid_civil :: "civil \<Rightarrow> bool" where
  "valid_civil c =
     (1 \<le> month c \<and> month c \<le> 12 \<and> 1 \<le> day c \<and> day c \<le> daysInMonth (year c) (month c))"

definition nextDay :: "civil \<Rightarrow> civil" where
  "nextDay c =
     (if day c < daysInMonth (year c) (month c) then c\<lparr>day := day c + 1\<rparr>
      else if month c < 12 then \<lparr>year = year c, month = month c + 1, day = 1\<rparr>
      else \<lparr>year = year c + 1, month = 1, day = 1\<rparr>)"

definition prevDay :: "civil \<Rightarrow> civil" where
  "prevDay c =
     (if 1 < day c then c\<lparr>day := day c - 1\<rparr>
      else if 1 < month c
        then \<lparr>year = year c, month = month c - 1, day = daysInMonth (year c) (month c - 1)\<rparr>
      else \<lparr>year = year c - 1, month = 12, day = 31\<rparr>)"

text \<open>\<^verbatim>\<open>setDate\<close> with a day outside the month carries into the neighbouring months, one
  day at a time here.\<close>

definition addDays :: "civil \<Rightarrow> int \<Rightarrow> civil" where
  "addDays c amount =
     (if 0 \<le> amount then (nextDay ^^ nat amount) c else (prevDay ^^ nat (- amount)) c)"

subsection \<open>Reading and printing a day\<close>

definition digit_chars :: string where
  "digit_chars = ''0123456789''"

definition is_digit :: "char \<Rightarrow> bool" where
  "is_digit c = (c \<in> set digit_chars)"

fun digits_of :: "nat \<Rightarrow> string" where
  "digits_of n = (if n < 10 then [digit_chars ! n] else digits_of (n div 10) @ [digit_chars ! (n mod 10)])"

declare digits_of.simps [simp del]

definition addLeadingZeros :: "nat \<Rightarrow> nat \<Rightarrow> string" where
  "addLeadingZeros n targetLength =
     replicate (targetLength - length (digits_of n)) (CHR ''0'') @ digits_of n"

text \<open>
  \<^verbatim>\<open>format(date, "yyyy-MM-dd")\<close> of date-fns: the year padded to four digits (a year
  of zero or less is printed as its era year \<open>1 - y\<close>), the month and the day padded to
  two.
\<close>

definition format_yyyy_MM_dd :: "civil \<Rightarrow> string" where
  "format_yyyy_MM_dd c =
     addLeadingZeros (nat (if 0 < year c then year c else 1 - year c)) 4 @ ''-'' @
     addLeadingZeros (nat (month c)) 2 @ ''-'' @
     addLeadingZeros (nat (day c)) 2"

text \<open>
  \<^verbatim>\<open>new Date(str)\<close> is the engine's date parser followed by the conversion to local
  time. It is a parameter of the model, \<open>newDate\<close>: the local calendar day of the
  instant the engine reads from the string, or \<open>None\<close> for an Invalid Date. For the
  date-only form \<^verbatim>\<open>YYYY-MM-DD\<close>, the form of the endpoint's \<^verbatim>\<open>departureDate\<close> and
  \<^verbatim>\<open>returnDate\<close>, the instant is midnight UTC of that day: its local calendar day is
  the same day on a server whose local time is at or ahead of UTC, and the day before on
  a server whose local time is behind UTC.
\<close>

type_synonym date_constructor = "string \<Rightarrow> civil option"

text \<open>The shape \<^verbatim>\<open>YYYY-MM-DD\<close> of a printed day and \<^verbatim>\<open>YYYY-MM-DD>YYYY-MM-DD\<close> of a
  date pair.\<close>

definition is_ymd :: "string \<Rightarrow> bool" where
  "is_ymd s =
     (length s = 10 \<and> list_all is_digit (take 4 s) \<and> s ! 4 = CHR ''-''
      \<and> list_all is_digit (take 2 (drop 5 s)) \<and> s ! 7 = CHR ''-''
      \<and> list_all is_digit (drop 8 s))"

definition is_datepair :: "string \<Rightarrow> bool" where
  "is_datepair s =
     (length s = 21 \<and> is_ymd (take 10 s) \<and> s ! 10 = CHR ''>'' \<and> is_ymd (drop 11 s))"

subsection \<open>generateCalendarDatepairs\<close>

text \<open>
  \<^verbatim>\<open>
  function generateCalendarDatepairs(departureDate, returnDate) {
    let datepairs = [];
    let _departure = new Date(departureDate);
    let _return = new Date(returnDate);
    for (let i = -3; i <= 3; i++) {
      let newDeparture = addDays(_departure, i);
      for (let j = -3; j <= 3; j++) {
        let newReturn = addDays(_return, j);
        datepairs.push(
          `${format(newDeparture, "yyyy-MM-dd")}>${format(newReturn, "yyyy-MM-dd")}`);
      }
    }
    return datepairs;
  }
  \<close>
  The two loops are the functions \<open>inner_loop\<close> and \<open>outer_loop\<close>, with the loop counter
  and the array as arguments. \<^verbatim>\<open>format\<close> throws a RangeError on an Invalid Date, which
  happens in the first iteration when either argument gives one.
\<close>

definition datepair_string :: "civil \<Rightarrow> civil \<Rightarrow> string" where
  "datepair_string newDeparture newReturn =
     format_yyyy_MM_dd newDeparture @ ''>'' @ format_yyyy_MM_dd newReturn"

function inner_loop :: "civil \<Rightarrow> civil \<Rightarrow> int \<Rightarrow> string list \<Rightarrow> string list" where
  "inner_loop newDeparture return' j datepairs =
     (if j \<le> 3
      then inner_loop newDeparture return' (j + 1)
             (datepairs @ [datepair_string newDeparture (addDays return' j)])
      else datepairs)"
  by pat_completeness auto
termination
  by (relation "measure (\<lambda>(d, r, j, ps). nat (4 - j))") auto

declare inner_loop.simps [simp del]

function outer_loop :: "civil \<Rightarrow> civil \<Rightarrow> int \<Rightarrow> string list \<Rightarrow> string list" where
  "outer_loop departure return' i datepairs =
     (if i \<le> 3
      then outer_loop departure return' (i + 1)
             (inner_loop (addDays departure i) return' (- 3) datepairs)
      else datepairs)"
  by pat_completeness auto
termination
  by (relation "measure (\<lambda>(d, r, i, ps). nat (4 - i))") auto

declare outer_loop.simps [simp del]

definition generateCalendarDatepairs ::
  "date_constructor \<Rightarrow> string \<Rightarrow> string \<Rightarrow> js_error + string list" where
  "generateCalendarDatepairs newDate departureDate' returnDate' =
     (case newDate departureDate' of
        None \<Rightarrow> Inl RangeError
      | Some departure \<Rightarrow>
          (case newDate returnDate' of
             None \<Rightarrow> Inl RangeError
           | Some return' \<Rightarrow> Inr (outer_loop departure return' (- 3) [])))"

subsection \<open>The grid of date pairs\<close>

text \<open>
  The specification's grid: the day offsets \<open>-3..3\<close> applied to a departure day and,
  independently, to a return day, every combination printed as a date pair, the
  departure offset varying slowest.
\<close>

definition cartesian_datepairs :: "civil \<Rightarrow> civil \<Rightarrow> string list" where
  "cartesian_datepairs d r =
     concat (map (\<lambda>i. map (\<lambda>j. datepair_string (addDays d i) (addDays r j)) [- 3..3]) [- 3..3])"

text \<open>
  The 49 date pairs around 2024-06-10 / 2024-06-17, and the 49 around the days before,
  2024-06-09 / 2024-06-16.
\<close>

definition pivot_grid :: "string list" where
  "pivot_grid =
     [''2024-06-07>2024-06-14'', ''2024-06-07>2024-06-15'', ''2024-06-07>2024-06-16'',
      ''2024-06-07>2024-06-17'', ''2024-06-07>2024-06-18'', ''2024-06-07>2024-06-19'',
      ''2024-06-07>2024-06-20'', ''2024-06-08>2024-06-14'', ''2024-06-08>2024-06-15'',
      ''2024-06-08>2024-06-16'', ''2024-06-08>2024-06-17'', ''2024-06-08>2024-06-18'',
      ''2024-06-08>2024-06-19'', ''2024-06-08>2024-06-20'', ''2024-06-09>2024-06-14'',
      ''2024-06-09>2024-06-15'', ''2024-06-09>2024-06-16'', ''2024-06-09>2024-06-17'',
      ''2024-06-09>2024-06-18'', ''2024-06-09>2024-06-19'', ''2024-06-09>2024-06-20'',
      ''2024-06-10>2024-06-14'', ''2024-06-10>2024-06-15'', ''2024-06-10>2024-06-16'',
      ''2024-06-10>2024-06-17'', ''2024-06-10>2024-06-18'', ''2024-06-10>2024-06-19'',
      ''2024-06-10>2024-06-20'', ''2024-06-11>2024-06-14'', ''2024-06-11>2024-06-15'',
      ''2024-06-11>2024-06-16'', ''2024-06-11>2024-06-17'', ''2024-06-11>2024-06-18'',
      ''2024-06-11>2024-06-19'', ''2024-06-11>2024-06-20'', ''2024-06-12>2024-06-14'',
      ''2024-06-12>2024-06-15'', ''2024-06-12>2024-06-16'', ''2024-06-12>2024-06-17'',
      ''2024-06-12>2024-06-18'', ''2024-06-12>2024-06-19'', ''2024-06-12>2024-06-20'',
      ''2024-06-13>2024-06-14'', ''2024-06-13>2024-06-15'', ''2024-06-13>2024-06-16'',
      ''2024-06-13>2024-06-17'', ''2024-06-13>2024-06-18'', ''2024-06-13>2024-06-19'',
      ''2024-06-13>2024-06-20'']"



section \<open>Prices for date pairs\<close>

text \<open>
  \<^verbatim>\<open>
  function pricesForDatepairs(origin, destination, adults, travelClass, datepairs) {
    return new Promise((resolve, reject) => {
      let flights = {};
      let responseCount = 0;
      let errorCount = 0;
      datepairs.forEach((datepair) => {
        ...
        limiter.schedule(() => amadeus.shopping.flightOffersSearch.get({...}))
          .then((response) => {
            const currencyFormatter = new Intl.NumberFormat("en-US", {
              style: "currency", currency: response.data[0].price.currency });
            flights[datepair] = {
              price: parseFloat(response.data[0].price.total),
              priceFormatted: currencyFormatter.format(response.data[0].price.total) };
          })
          .catch((_) => { errorCount++; flights[datepair] = {}; })
          .finally(() => {
            responseCount++;
            if (responseCount === datepairs.length) { ...; resolve(flights); }
          });
      });
    });
  }
  \<close>
\<close>

subsection \<open>The object of results\<close>

text \<open>
  A value of \<^verbatim>\<open>flights\<close> is the empty object or a price; \<open>'n\<close> is the type of
  numbers, and \<^verbatim>\<open>parseFloat\<close> a parameter. The object itself is the list of its own
  properties, in insertion order (the order of keys that are not array indices).
  \<open>set_own\<close> writes an own property: the value of a key the object has is replaced in
  place, a new key is added at the end. The assignment \<^verbatim>\<open>flights[datepair] = value\<close> is
  \<open>assign\<close>: it writes an own property for every key but \<^verbatim>\<open>__proto__\<close>; on a plain
  object that key is the accessor of the prototype, and assigning an object to it (both
  values stored here are objects) changes the prototype and creates no property.
\<close>

datatype 'n price_result = EmptyObject | PriceResult 'n string

fun set_own :: "string \<Rightarrow> 'v \<Rightarrow> (string \<times> 'v) list \<Rightarrow> (string \<times> 'v) list" where
  "set_own k v [] = [(k, v)]"
| "set_own k v ((k', v') # rest) =
     (if k' = k then (k, v) # rest else (k', v') # set_own k v rest)"

definition assign :: "string \<Rightarrow> 'v \<Rightarrow> (string \<times> 'v) list \<Rightarrow> (string \<times> 'v) list" where
  "assign k v obj = (if k = ''__proto__'' then obj else set_own k v obj)"

subsection \<open>The callbacks of one query\<close>

text \<open>
  The \<^verbatim>\<open>.then\<close> callback runs when the query is fulfilled. It throws a TypeError when
  \<^verbatim>\<open>response.data\<close> is empty and a RangeError when the formatter cannot be built, in
  both cases before it writes anything; otherwise it stores the price.
\<close>

definition then_callback ::
  "(string \<Rightarrow> 'n) \<Rightarrow> (string \<Rightarrow> (string \<Rightarrow> string) option) \<Rightarrow> amadeus_response
     \<Rightarrow> js_error + 'n price_result" where
  "then_callback parseFloat numberFormat response =
     (case js_index (sdk_data response) 0 of
        None \<Rightarrow> Inl TypeError
      | Some first \<Rightarrow>
          (case numberFormat (currency (price first)) of
             None \<Rightarrow> Inl RangeError
           | Some currencyFormatter \<Rightarrow>
               Inr (PriceResult (parseFloat (total (price first)))
                                (currencyFormatter (total (price first))))))"

text \<open>
  The chain \<^verbatim>\<open>.then(...).catch(...)\<close> of one query: the value stored under the date pair
  and whether \<^verbatim>\<open>errorCount\<close> is incremented. The \<^verbatim>\<open>.catch\<close> callback runs when the
  query was rejected and when the \<^verbatim>\<open>.then\<close> callback threw.
\<close>

definition query_result ::
  "(string \<Rightarrow> 'n) \<Rightarrow> (string \<Rightarrow> (string \<Rightarrow> string) option) \<Rightarrow> upstream_outcome
     \<Rightarrow> js_error + 'n price_result" where
  "query_result parseFloat numberFormat upstream =
     (case upstream of
        UpRejected err \<Rightarrow> Inl err
      | UpFulfilled response \<Rightarrow> then_callback parseFloat numberFormat response)"

subsection \<open>The state and its steps\<close>

text \<open>
  The variables of the promise's executor, the state of the promise, and for each
  scheduled query how far its chain of callbacks has run. The callbacks of different
  queries run one at a time in an order the limiter and the network decide: an
  \<open>event\<close> names the callback that runs next. \<open>Settle i\<close> is the \<^verbatim>\<open>.then\<close> or
  \<^verbatim>\<open>.catch\<close> callback of query \<open>i\<close> that writes \<^verbatim>\<open>flights\<close> (a \<^verbatim>\<open>.then\<close> callback
  that throws writes nothing before), \<open>Finally i\<close> its \<^verbatim>\<open>.finally\<close> callback.
\<close>

datatype job_phase = Scheduled | Recorded | Finished

datatype event = Settle nat | Finally nat

record 'n scan_state =
  flights :: "(string \<times> 'n price_result) list"
  responseCount :: nat
  errorCount :: nat
  promise :: "((string \<times> 'n price_result) list, js_error) settled option"
  jobs :: "job_phase list"

text \<open>\<^verbatim>\<open>resolve(v)\<close> settles a pending promise and does nothing to a settled one.\<close>

definition resolve :: "'a \<Rightarrow> ('a, 'e) settled option \<Rightarrow> ('a, 'e) settled option" where
  "resolve v p = (case p of None \<Rightarrow> Some (Fulfilled v) | Some s \<Rightarrow> Some s)"

text \<open>The executor: \<^verbatim>\<open>forEach\<close> schedules one query for each element of the array.\<close>

definition pricesForDatepairs_start :: "string list \<Rightarrow> 'n scan_state" where
  "pricesForDatepairs_start datepairs =
     \<lparr>flights = [], responseCount = 0, errorCount = 0, promise = None,
      jobs = map (\<lambda>datepair. Scheduled) datepairs\<rparr>"

definition on_settle ::
  "(string \<Rightarrow> 'n) \<Rightarrow> (string \<Rightarrow> (string \<Rightarrow> string) option) \<Rightarrow> string \<Rightarrow> upstream_outcome
     \<Rightarrow> 'n scan_state \<Rightarrow> 'n scan_state" where
  "on_settle parseFloat numberFormat datepair upstream st =
     (case query_result parseFloat numberFormat upstream of
        Inr result \<Rightarrow> st\<lparr>flights := assign datepair result (flights st)\<rparr>
      | Inl err \<Rightarrow>
          st\<lparr>errorCount := errorCount st + 1,
             flights := assign datepair EmptyObject (flights st)\<rparr>)"

definition on_finally :: "string list \<Rightarrow> 'n scan_state \<Rightarrow> 'n scan_state" where
  "on_finally datepairs st =
     (let st' = st\<lparr>responseCount := responseCount st + 1\<rparr>
      in if responseCount st' = length datepairs
         then st'\<lparr>promise := resolve (flights st') (promise st')\<rparr>
         else st')"

text \<open>
  One callback runs. An event is enabled only for a query that was scheduled and whose
  chain is at that callback: each query settles once, and its \<^verbatim>\<open>.finally\<close> callback
  runs after its \<^verbatim>\<open>.then\<close> or \<^verbatim>\<open>.catch\<close> callback. \<open>upstreams ! i\<close> is the outcome
  of query \<open>i\<close>.
\<close>

fun step ::
  "(string \<Rightarrow> 'n) \<Rightarrow> (string \<Rightarrow> (string \<Rightarrow> string) option) \<Rightarrow> string list
     \<Rightarrow> upstream_outcome list \<Rightarrow> event \<Rightarrow> 'n scan_state \<Rightarrow> 'n scan_state option" where
  "step parseFloat numberFormat datepairs upstreams (Settle i) st =
     (if i < length datepairs \<and> i < length upstreams \<and> jobs st ! i = Scheduled
      then Some ((on_settle parseFloat numberFormat (datepairs ! i) (upstreams ! i) st)
                   \<lparr>jobs := (jobs st)[i := Recorded]\<rparr>)
      else None)"
| "step parseFloat numberFormat datepairs upstreams (Finally i) st =
     (if i < length datepairs \<and> i < length upstreams \<and> jobs st ! i = Recorded
      then Some ((on_finally datepairs st)\<lparr>jobs := (jobs st)[i := Finished]\<rparr>)
      else None)"

fun run ::
  "(string \<Rightarrow> 'n) \<Rightarrow> (string \<Rightarrow> (string \<Rightarrow> string) option) \<Rightarrow> string list
     \<Rightarrow> upstream_outcome list \<Rightarrow> event list \<Rightarrow> 'n scan_state \<Rightarrow> 'n scan_state option" where
  "run parseFloat numberFormat datepairs upstreams [] st = Some st"
| "run parseFloat numberFormat datepairs upstreams (e # es) st =
     (case step parseFloat numberFormat datepairs upstreams e st of
        None \<Rightarrow> None
      | Some st' \<Rightarrow> run parseFloat numberFormat datepairs upstreams es st')"

text \<open>
  \<open>pricesForDatepairs\<close> is the state reached from the executor's by the callbacks
  \<open>events\<close>, \<open>None\<close> when \<open>events\<close> is no order in which callbacks can run.
  \<open>all_settled\<close> says that every query's chain has run to its end; \<open>in_order\<close> is the
  order in which query 0 settles and finishes first, then query 1, and so on.
\<close>

definition pricesForDatepairs ::
  "(string \<Rightarrow> 'n) \<Rightarrow> (string \<Rightarrow> (string \<Rightarrow> string) option) \<Rightarrow> string list
     \<Rightarrow> upstream_outcome list \<Rightarrow> event list \<Rightarrow> 'n scan_state option" where
  "pricesForDatepairs parseFloat numberFormat datepairs upstreams events =
     run parseFloat numberFormat datepairs upstreams events (pricesForDatepairs_start datepairs)"

definition all_settled :: "'n scan_state \<Rightarrow> bool" where
  "all_settled st = list_all (\<lambda>ph. ph = Finished) (jobs st)"

definition in_order :: "nat \<Rightarrow> event list" where
  "in_order n = concat (map (\<lambda>i. [Settle i, Finally i]) [0..<n])"

subsection \<open>The endpoints\<close>

text \<open>
  \<^verbatim>\<open>
  app.post("/flights-for-datepairs", (req, res) => {
    pricesForDatepairs(req.body.origin, ..., req.body.datepairs)
      .then((flights) => res.send(flights))
      .catch((err) => { console.error(err); res.status(500).send(err); });
  });
  \<close>
  The answer once the callbacks \<open>events\<close> have run: none while the promise is pending.
\<close>

datatype 'n flights_or_error = FlightsValue "(string \<times> 'n price_result) list" | ErrorBody js_error

definition flights_for_datepairs_handler ::
  "(string \<Rightarrow> 'n) \<Rightarrow> (string \<Rightarrow> (string \<Rightarrow> string) option) \<Rightarrow> string list
     \<Rightarrow> upstream_outcome list \<Rightarrow> event list \<Rightarrow> 'n flights_or_error http_response option" where
  "flights_for_datepairs_handler parseFloat numberFormat datepairs upstreams events =
     (case pricesForDatepairs parseFloat numberFormat datepairs upstreams events of
        None \<Rightarrow> None
      | Some st \<Rightarrow>
          (case promise st of
             None \<Rightarrow> None
           | Some (Fulfilled fl) \<Rightarrow> Some \<lparr>status = 200, payload = FlightsValue fl\<rparr>
           | Some (Rejected err) \<Rightarrow> Some \<lparr>status = 500, payload = ErrorBody err\<rparr>))"

subsection \<open>What a settled query leaves behind\<close>

text \<open>
  \<open>stored_value\<close> is the value written under a date pair when its query settles: the
  result of the \<^verbatim>\<open>.then\<close> callback, or the empty object written by the \<^verbatim>\<open>.catch\<close>
  callback. When a date pair occurs more than once in the list, each of its queries
  writes under the same key and the last to settle wins: \<open>last_settled\<close> is the query
  for a date pair whose \<open>Settle\<close> event comes last in a sequence of events.
  \<open>scan_inv\<close> relates the executor's variables to the progress of the queries; it holds
  in every state the callbacks can reach.
\<close>

definition stored_value ::
  "(string \<Rightarrow> 'n) \<Rightarrow> (string \<Rightarrow> (string \<Rightarrow> string) option) \<Rightarrow> upstream_outcome \<Rightarrow> 'n price_result" where
  "stored_value parseFloat numberFormat upstream =
     (case query_result parseFloat numberFormat upstream of
        Inr result \<Rightarrow> result
      | Inl err \<Rightarrow> EmptyObject)"

fun last_settled :: "string list \<Rightarrow> event list \<Rightarrow> string \<Rightarrow> nat option" where
  "last_settled datepairs [] datepair = None"
| "last_settled datepairs (e # es) datepair =
     (case last_settled datepairs es datepair of
        Some i \<Rightarrow> Some i
      | None \<Rightarrow>
          (case e of
             Settle i \<Rightarrow>
               if i < length datepairs \<and> datepairs ! i = datepair then Some i else None
           | Finally i \<Rightarrow> None))"

definition scan_inv :: "string list \<Rightarrow> 'n scan_state \<Rightarrow> bool" where
  "scan_inv datepairs st =
     (length (jobs st) = length datepairs
      \<and> responseCount st = length (filter (\<lambda>ph. ph = Finished) (jobs st))
      \<and> fst ` set (flights st)
          = {datepairs ! k |k. k < length datepairs \<and> jobs st ! k \<noteq> Scheduled
                                \<and> datepairs ! k \<noteq> ''__proto__''}
      \<and> distinct (map fst (flights st))
      \<and> promise st
          = (if datepairs \<noteq> [] \<and> all_settled st then Some (Fulfilled (flights st)) else None))"


section \<open>Sample values\<close>

text \<open>Small values of the data model, used to run the functions on concrete inputs.\<close>


definition segment_of :: "string \<Rightarrow> string \<Rightarrow> segmentData" where
  "segment_of code name =
     \<lparr>departureDate = [], arrivalDate = [], departureTime = [], arrivalTime = [],
      duration = [], origin = [], destination = [], carrierCode = code, carrierName = name,
      flightNumber = [], aircraft = [], cabin_class = [], stopDuration = None\<rparr>"

definition itinerary_of :: "segmentData list \<Rightarrow> itineraryData" where
  "itinerary_of segs =
     \<lparr>it_duration = [], stops = [], segments = segs, departureAirport = [],
      it_departureTime = [], it_departureDate = [], arrivalAirport = [], it_arrivalTime = [],
      it_arrivalDate = [], priceFormatted = None, offerId = None\<rparr>"

definition raw_segment_of :: "string \<Rightarrow> string \<Rightarrow> raw_segment" where
  "raw_segment_of sid code =
     \<lparr>seg_id = sid, seg_carrierCode = code, operating_carrierCode = None, seg_number = ''100'',
      aircraft_code = ''320'', seg_duration = ''PT2H'', departure_iataCode = ''MRU'',
      departure_at = ''2024-06-10T08:00:00'', arrival_iataCode = ''CDG'',
      arrival_at = ''2024-06-10T10:00:00''\<rparr>"

definition raw_offer_of :: "string \<Rightarrow> string list \<Rightarrow> string list \<Rightarrow> raw_offer" where
  "raw_offer_of oid out_carriers in_carriers =
     \<lparr>offer_id = oid, price = \<lparr>currency = ''EUR'', total = ''512.30''\<rparr>,
      validatingAirlineCodes = take 1 out_carriers,
      itineraries =
        [\<lparr>raw_duration = ''PT2H'', raw_segments = map (raw_segment_of oid) out_carriers\<rparr>,
         \<lparr>raw_duration = ''PT2H'', raw_segments = map (raw_segment_of oid) in_carriers\<rparr>]\<rparr>"

definition two_offers_same_outbound :: amadeus_response where
  "two_offers_same_outbound =
     (let offers = [raw_offer_of ''1'' [''MK''] [''AF''], raw_offer_of ''2'' [''MK''] [''KL'']];
          response = \<lparr>data = offers,
                      carriers = [(''MK'', ''AIR MAURITIUS''), (''AF'', ''AIR FRANCE''), (''KL'', ''KLM'')],
                      aircraft_names = [(''320'', ''AIRBUS A320'')]\<rparr>
      in \<lparr>body = Some response, sdk_data = offers\<rparr>)"

text \<open>
  A number is written as its decimal text, and a price is formatted as the currency code
  followed by the amount; a currency code has three letters.
\<close>

definition sample_parseFloat :: "string \<Rightarrow> string" where
  "sample_parseFloat text = text"

definition sample_numberFormat :: "string \<Rightarrow> (string \<Rightarrow> string) option" where
  "sample_numberFormat code =
     (if length code = 3 then Some (\<lambda>amount. code @ '' '' @ amount) else None)"

definition priced_response :: "string \<Rightarrow> upstream_outcome" where
  "priced_response amount =
     (let offers = [\<lparr>offer_id = ''1'', price = \<lparr>currency = ''EUR'', total = amount\<rparr>,
                     validatingAirlineCodes = [''MK''], itineraries = []\<rparr>]
      in UpFulfilled \<lparr>body = Some \<lparr>data = offers, carriers = [], aircraft_names = []\<rparr>,
          sdk_data = offers\<rparr>)"

definition no_offers_response :: upstream_outcome where
  "no_offers_response =
     UpFulfilled \<lparr>body = Some \<lparr>data = [], carriers = [], aircraft_names = []\<rparr>, sdk_data = []\<rparr>"






section \<open>Properties of the formatting helpers\<close>

subsection \<open>Splitting\<close>

lemma js_split_Nil: "sep \<noteq> [] \<Longrightarrow> js_split [] sep = [[]]"
  by (simp add: js_split.simps)

lemma js_split_single_skip:
  "c \<noteq> a \<Longrightarrow>
   js_split (c # cs) [a] = (case js_split cs [a] of [] \<Rightarrow> [[c]] | t # ts \<Rightarrow> (c # t) # ts)"
  by (subst js_split.simps) (simp split: list.split)

lemma js_split_single_hit: "js_split (a # cs) [a] = [] # js_split cs [a]"
  by (subst js_split.simps) simp

lemma js_split_single_until:
  "a \<notin> set xs \<Longrightarrow> js_split (xs @ a # rest) [a] = xs # js_split rest [a]"
  by (induction xs) (auto simp: js_split_single_hit js_split_single_skip)

lemma js_split_single_none: "a \<notin> set xs \<Longrightarrow> js_split xs [a] = [xs]"
  by (induction xs) (auto simp: js_split_Nil js_split_single_skip)

lemma js_split_PT_hit:
  "js_split (CHR ''P'' # CHR ''T'' # rest) ''PT'' = [] # js_split rest ''PT''"
  by (subst js_split.simps) simp

lemma js_split_PT_none: "CHR ''P'' \<notin> set xs \<Longrightarrow> js_split xs ''PT'' = [xs]"
proof (induction xs)
  case Nil
  then show ?case by (simp add: js_split_Nil)
next
  case (Cons c cs)
  then have "js_split cs ''PT'' = [cs]" by simp
  moreover have "take 2 (c # cs) \<noteq> ''PT''" using Cons.prems by (cases cs) auto
  ultimately show ?case by (subst js_split.simps) simp
qed

lemma js_includes_single: "js_includes s [a] = (a \<in> set s)"
  by (induction s) auto

lemma digit_not_letter:
  "list_all is_digit h \<Longrightarrow> CHR ''P'' \<notin> set h \<and> CHR ''H'' \<notin> set h \<and> CHR ''M'' \<notin> set h"
  by (induction h) (auto simp: is_digit_def digit_chars_def)

subsection \<open>formatDuration\<close>

lemma plain_suffix_no_letter:
  "plain_suffix rest \<Longrightarrow>
   CHR ''P'' \<notin> set rest \<and> CHR ''H'' \<notin> set rest \<and> CHR ''M'' \<notin> set rest"
  by (induction rest) (auto simp: plain_suffix_def)

lemma js_index_0: "js_index (x # xs) 0 = Some x"
  by simp

lemma formatDuration_both:
  assumes "list_all is_digit h" "list_all is_digit m" "plain_suffix rest"
  shows "formatDuration (''PT'' @ h @ ''H'' @ m @ ''M'' @ rest)
           = Inr (h @ '' h '' @ m @ '' min'')"
proof -
  from assms have nh: "CHR ''P'' \<notin> set h" "CHR ''H'' \<notin> set h" "CHR ''M'' \<notin> set h"
    and nm: "CHR ''P'' \<notin> set m" "CHR ''H'' \<notin> set m" "CHR ''M'' \<notin> set m"
    and nr: "CHR ''P'' \<notin> set rest" "CHR ''H'' \<notin> set rest" "CHR ''M'' \<notin> set rest"
    using digit_not_letter plain_suffix_no_letter by blast+
  let ?r = "h @ ''H'' @ m @ ''M'' @ rest"
  have 1: "js_split (''PT'' @ ?r) ''PT'' = [[], ?r]"
    using nh nm nr by (simp add: js_split_PT_hit js_split_PT_none)
  have 2: "js_split ?r ''H'' = [h, m @ ''M'' @ rest]"
    using js_split_single_until[OF nh(2), of "m @ ''M'' @ rest"] nm nr
    by (simp add: js_split_single_none)
  have 3: "js_split (m @ ''M'' @ rest) ''M'' = m # js_split rest ''M''"
    using js_split_single_until[OF nm(3), of rest] by simp
  show ?thesis
    using 1 2 3 by (simp add: formatDuration_def piece_def js_includes_single)
qed

lemma formatDuration_minutes:
  assumes "list_all is_digit m" "plain_suffix rest"
  shows "formatDuration (''PT'' @ m @ ''M'' @ rest) = Inr (m @ '' min'')"
proof -
  from assms have nm: "CHR ''P'' \<notin> set m" "CHR ''H'' \<notin> set m" "CHR ''M'' \<notin> set m"
    and nr: "CHR ''P'' \<notin> set rest" "CHR ''H'' \<notin> set rest" "CHR ''M'' \<notin> set rest"
    using digit_not_letter plain_suffix_no_letter by blast+
  have 1: "js_split (''PT'' @ m @ ''M'' @ rest) ''PT'' = [[], m @ ''M'' @ rest]"
    using nm nr by (simp add: js_split_PT_hit js_split_PT_none)
  have 3: "js_split (m @ ''M'' @ rest) ''M'' = m # js_split rest ''M''"
    using js_split_single_until[OF nm(3), of rest] by simp
  show ?thesis
    using 1 3 nm nr by (simp add: formatDuration_def piece_def js_includes_single)
qed

lemma formatDuration_hours:
  assumes "list_all is_digit h" "plain_suffix rest"
  shows "formatDuration (''PT'' @ h @ ''H'' @ rest) = Inr (h @ '' h'')"
proof -
  from assms have nh: "CHR ''P'' \<notin> set h" "CHR ''H'' \<notin> set h" "CHR ''M'' \<notin> set h"
    and nr: "CHR ''P'' \<notin> set rest" "CHR ''H'' \<notin> set rest" "CHR ''M'' \<notin> set rest"
    using digit_not_letter plain_suffix_no_letter by blast+
  have 1: "js_split (''PT'' @ h @ ''H'' @ rest) ''PT'' = [[], h @ ''H'' @ rest]"
    using nh nr by (simp add: js_split_PT_hit js_split_PT_none)
  have 2: "js_split (h @ ''H'' @ rest) ''H'' = h # js_split rest ''H''"
    using js_split_single_until[OF nh(2), of rest] by simp
  show ?thesis
    using 1 2 nh nr by (simp add: formatDuration_def piece_def js_includes_single)
qed

text \<open>
  Claim C5, as the code has it. For a duration \<^verbatim>\<open>PT<h>H<m>M\<close>, \<^verbatim>\<open>PT<m>M\<close> or
  \<^verbatim>\<open>PT<h>H\<close> whose hour and minute values \<open>h\<close> and \<open>m\<close> are strings of decimal
  digits, with or without a seconds component after them, \<open>formatDuration\<close> returns
  \<^verbatim>\<open><h> h <m> min\<close>, \<^verbatim>\<open><m> min\<close> and \<^verbatim>\<open><h> h\<close>: the values are copied as they are,
  a zero included, so \<^verbatim>\<open>PT0H45M\<close> gives \<^verbatim>\<open>0 h 45 min\<close>; \<^verbatim>\<open>PT2H30M\<close>, \<^verbatim>\<open>PT45M\<close>,
  \<^verbatim>\<open>PT5H\<close> give \<^verbatim>\<open>2 h 30 min\<close>, \<^verbatim>\<open>45 min\<close>, \<^verbatim>\<open>5 h\<close>, and \<^verbatim>\<open>PT1H30M15S\<close> gives
  \<^verbatim>\<open>1 h 30 min\<close>.
\<close>

theorem formatDuration_renders_units:
  assumes "list_all is_digit h" and "list_all is_digit m" and "plain_suffix rest"
  shows "formatDuration (''PT'' @ h @ ''H'' @ m @ ''M'' @ rest)
           = Inr (h @ '' h '' @ m @ '' min'')
       \<and> formatDuration (''PT'' @ m @ ''M'' @ rest) = Inr (m @ '' min'')
       \<and> formatDuration (''PT'' @ h @ ''H'' @ rest) = Inr (h @ '' h'')
       \<and> formatDuration ''PT0H45M'' = Inr ''0 h 45 min''
       \<and> formatDuration ''PT2H30M'' = Inr ''2 h 30 min''
       \<and> formatDuration ''PT45M'' = Inr ''45 min''
       \<and> formatDuration ''PT5H'' = Inr ''5 h''
       \<and> formatDuration ''PT1H30M15S'' = Inr ''1 h 30 min''"
proof -
  have d: "list_all is_digit ''0''" "list_all is_digit ''45''" "list_all is_digit ''2''"
    "list_all is_digit ''30''" "list_all is_digit ''5''" "list_all is_digit ''1''"
    by (simp_all add: is_digit_def digit_chars_def)
  have e: "plain_suffix []" "plain_suffix ''15S''"
    by (simp_all add: plain_suffix_def)
  have "formatDuration ''PT0H45M'' = Inr ''0 h 45 min''"
    using formatDuration_both[OF d(1) d(2) e(1)] by simp
  moreover have "formatDuration ''PT2H30M'' = Inr ''2 h 30 min''"
    using formatDuration_both[OF d(3) d(4) e(1)] by simp
  moreover have "formatDuration ''PT45M'' = Inr ''45 min''"
    using formatDuration_minutes[OF d(2) e(1)] by simp
  moreover have "formatDuration ''PT5H'' = Inr ''5 h''"
    using formatDuration_hours[OF d(5) e(1)] by simp
  moreover have "formatDuration ''PT1H30M15S'' = Inr ''1 h 30 min''"
    using formatDuration_both[OF d(6) d(4) e(2)] by simp
  ultimately show ?thesis
    using formatDuration_both[OF assms] formatDuration_minutes[OF assms(2,3)]
      formatDuration_hours[OF assms(1,3)] by simp
qed

theorem formatDuration_renders_units_witness:
  "list_all is_digit ''12'' \<and> list_all is_digit ''05'' \<and> plain_suffix ''40S''
   \<and> formatDuration ''PT12H05M40S'' = Inr ''12 h 05 min''
   \<and> formatDuration ''PT05M40S'' = Inr ''05 min''
   \<and> formatDuration ''PT12H40S'' = Inr ''12 h''"
proof -
  have h: "list_all is_digit ''12''" and m: "list_all is_digit ''05''"
    by (simp_all add: is_digit_def digit_chars_def)
  have r: "plain_suffix ''40S''" by (simp add: plain_suffix_def)
  show ?thesis
    using h m r formatDuration_renders_units[OF h m r] by simp
qed

text \<open>
  Claim C5 as stated fails for a duration with a day component before the \<^verbatim>\<open>T\<close>: it
  has an hour and a minute component, but \<^verbatim>\<open>str.split("PT")[1]\<close> is undefined and the
  next method call throws a TypeError.
\<close>

theorem formatDuration_day_component_throws:
  "formatDuration ''P1DT2H30M'' = Inl TypeError"
  by code_simp

subsection \<open>formatString\<close>




















text \<open>
  Claim C6, as the code has it. \<open>formatString\<close> splits at the hyphen like at a space
  and joins with a space: \<^verbatim>\<open>SAINT-LOUIS\<close> becomes \<^verbatim>\<open>Saint Louis\<close>, the hyphen is not
  kept.
\<close>

theorem formatString_saint_louis: "formatString ''SAINT-LOUIS'' = ''Saint Louis''"
  by code_simp

theorem formatString_keeps_no_hyphen: "formatString ''SAINT-LOUIS'' \<noteq> ''Saint-Louis''"
  by code_simp

section \<open>Properties of the offer functions\<close>

lemma sameOutbound_iff:
  "sameOutbound it1 it2 \<longleftrightarrow>
     length (segments it1) = length (segments it2)
     \<and> set (map flightKey (segments it1)) \<subseteq> set (map flightKey (segments it2))"
  by (auto simp: sameOutbound_def Let_def list_all_iff)

lemma subset_same_length_mset:
  assumes "distinct xs" "length xs = length ys" "set xs \<subseteq> set ys"
  shows "mset xs = mset ys"
proof -
  have "card (set ys) \<le> length ys" by (rule card_length)
  also have "\<dots> = card (set xs)" using assms(1,2) by (simp add: distinct_card)
  finally have "card (set ys) \<le> card (set xs)" .
  then have eq: "set xs = set ys" using assms(3) by (simp add: card_seteq)
  then have "card (set ys) = length ys" using assms(1,2) by (metis distinct_card)
  then have "distinct ys" by (rule card_distinct)
  with eq assms(1) show ?thesis by (simp add: set_eq_iff_mset_eq_distinct)
qed

lemma sameOutbound_distinct:
  assumes "distinct (map flightKey (segments it1))"
  shows "sameOutbound it1 it2 \<longleftrightarrow>
     mset (map flightKey (segments it1)) = mset (map flightKey (segments it2))"
proof
  assume "sameOutbound it1 it2"
  then show "mset (map flightKey (segments it1)) = mset (map flightKey (segments it2))"
    using assms subset_same_length_mset[of "map flightKey (segments it1)" "map flightKey (segments it2)"]
    by (simp add: sameOutbound_iff)
next
  assume m: "mset (map flightKey (segments it1)) = mset (map flightKey (segments it2))"
  then have "length (map flightKey (segments it1)) = length (map flightKey (segments it2))"
    by (rule mset_eq_length)
  moreover have "set (map flightKey (segments it1)) = set (map flightKey (segments it2))"
    using m by (rule mset_eq_setD)
  ultimately show "sameOutbound it1 it2" by (simp add: sameOutbound_iff)
qed

lemma mset_imp_sameOutbound:
  "mset (map flightKey (segments it1)) = mset (map flightKey (segments it2)) \<Longrightarrow> sameOutbound it1 it2"
  by (metis sameOutbound_iff mset_eq_length mset_eq_setD length_map order_refl)

text \<open>
  Claim C3, at two itineraries of two segments each. The first flies the same carrier
  twice, the second that carrier and another one: the multisets of carrier keys differ,
  and so do the sets, yet \<open>sameOutbound\<close> holds from the first to the second, and it
  does not hold from the second to the first. The test is the one-way inclusion of \<open>sameOutbound_iff\<close>; it
  is the equality of the multisets when the first itinerary repeats no carrier
  (\<open>sameOutbound_distinct\<close>).
\<close>

theorem sameOutbound_repeated_carrier:
  "sameOutbound
     (itinerary_of [segment_of ''AA'' ''American Airlines'', segment_of ''AA'' ''American Airlines''])
     (itinerary_of [segment_of ''AA'' ''American Airlines'', segment_of ''BA'' ''British Airways''])
   \<and> \<not> sameOutbound
     (itinerary_of [segment_of ''AA'' ''American Airlines'', segment_of ''BA'' ''British Airways''])
     (itinerary_of [segment_of ''AA'' ''American Airlines'', segment_of ''AA'' ''American Airlines''])
   \<and> mset (map flightKey [segment_of ''AA'' ''American Airlines'', segment_of ''AA'' ''American Airlines''])
       \<noteq> mset (map flightKey [segment_of ''AA'' ''American Airlines'', segment_of ''BA'' ''British Airways''])
   \<and> set (map flightKey [segment_of ''AA'' ''American Airlines'', segment_of ''AA'' ''American Airlines''])
       \<noteq> set (map flightKey [segment_of ''AA'' ''American Airlines'', segment_of ''BA'' ''British Airways''])"
  by (simp add: sameOutbound_def itinerary_of_def segment_of_def flightKey_def)

lemma read_priceFrom: "read_identifier callback_scope ''priceFrom'' = Inl ReferenceError"
  by (simp add: read_identifier_def callback_scope_def module_scope_def)

lemma processOffer_throws: "processOffer fmt remainder offer offers = Inl ReferenceError"
  by (simp add: processOffer_def read_priceFrom)

lemma forEach_offers_throws:
  "os \<noteq> [] \<Longrightarrow> forEach_offers fmt remainder os offers = Inl ReferenceError"
  by (cases os) (simp_all add: processOffer_throws)

lemma processResponse_throws: "\<exists>e. processResponse numberFormat remainder res = Inl e"
proof (cases "body res")
  case None
  then show ?thesis by (simp add: processResponse_def)
next
  case (Some response)
  show ?thesis
  proof (cases "data response")
    case Nil
    with Some show ?thesis by (simp add: processResponse_def)
  next
    case (Cons first rest)
    with Some show ?thesis
      by (cases "numberFormat (currency (price first))")
         (simp_all add: processResponse_def processOffer_throws)
  qed
qed

lemma getFlightOffers_error:
  "\<exists>e. getFlightOffers numberFormat remainder upstream = Fulfilled (ErrorValue e)"
proof (cases upstream)
  case (UpFulfilled res)
  obtain e where "processResponse numberFormat remainder res = Inl e"
    using processResponse_throws by blast
  with UpFulfilled show ?thesis by (simp add: getFlightOffers_def)
next
  case (UpRejected err)
  then show ?thesis by (simp add: getFlightOffers_def)
qed

lemma getFlightOffers_fulfilled:
  "\<exists>v. getFlightOffers numberFormat remainder upstream = Fulfilled v"
proof (cases upstream)
  case (UpFulfilled res)
  then show ?thesis
    by (cases "processResponse numberFormat remainder res") (simp_all add: getFlightOffers_def)
next
  case (UpRejected err)
  then show ?thesis by (simp add: getFlightOffers_def)
qed

text \<open>
  Claim C1, as the code has it. The promise of \<open>getFlightOffers\<close> is always
  fulfilled, with the error when there is one, so the endpoint answers every request with
  status 200, whatever the upstream outcome and whatever the processing of the offers
  does: a rejected upstream call (here with HTTP status 400) and an answer whose body
  does not parse are sent with status 200 and the error as payload. The branch that sets
  status 500 is never taken.
\<close>

theorem get_flight_offers_failure_is_200:
  "status (get_flight_offers_handler numberFormat remainder upstream) = 200
   \<and> get_flight_offers_handler numberFormat remainder (UpRejected (ResponseError 400))
       = \<lparr>status = 200, payload = ErrorValue (ResponseError 400)\<rparr>
   \<and> get_flight_offers_handler numberFormat remainder (UpFulfilled \<lparr>body = None, sdk_data = []\<rparr>)
       = \<lparr>status = 200, payload = ErrorValue SyntaxError\<rparr>"
proof -
  obtain v where "getFlightOffers numberFormat remainder upstream = Fulfilled v"
    using getFlightOffers_fulfilled by blast
  then have "status (get_flight_offers_handler numberFormat remainder upstream) = 200"
    by (simp add: get_flight_offers_handler_def)
  then show ?thesis
    by (simp add: get_flight_offers_handler_def getFlightOffers_def processResponse_def)
qed

text \<open>
  Claim C4, at an answer of two offers with the same outbound carrier and different
  inbound carriers. The first iteration over the offers reads the undeclared identifier
  and throws: the promise is fulfilled with the ReferenceError (with a RangeError if the
  currency formatter cannot be built), not with one offer of two inbound itineraries.
  No upstream outcome makes \<open>getFlightOffers\<close> return a list of offers.
\<close>

theorem getFlightOffers_two_offers_throws:
  "getFlightOffers numberFormat remainder (UpFulfilled two_offers_same_outbound)
     = Fulfilled (ErrorValue (case numberFormat ''EUR'' of
                                None \<Rightarrow> RangeError | Some fmt \<Rightarrow> ReferenceError))
   \<and> (\<forall>offers. getFlightOffers numberFormat remainder upstream \<noteq> Fulfilled (OffersValue offers))"
proof
  show "getFlightOffers numberFormat remainder (UpFulfilled two_offers_same_outbound)
     = Fulfilled (ErrorValue (case numberFormat ''EUR'' of
                                None \<Rightarrow> RangeError | Some fmt \<Rightarrow> ReferenceError))"
    by (cases "numberFormat ''EUR''")
       (simp_all add: getFlightOffers_def processResponse_def two_offers_same_outbound_def
          Let_def raw_offer_of_def processOffer_throws)
  show "\<forall>offers. getFlightOffers numberFormat remainder upstream \<noteq> Fulfilled (OffersValue offers)"
    using getFlightOffers_error[of numberFormat remainder upstream] by auto
qed

section \<open>Properties of the calendar date pairs\<close>

subsection \<open>The loops\<close>

lemma inner_loop_eq:
  "inner_loop nd r j acc = acc @ map (\<lambda>j. datepair_string nd (addDays r j)) [j..3]"
proof (induction nd r j acc rule: inner_loop.induct)
  case (1 nd r j acc)
  show ?case
  proof (cases "j \<le> 3")
    case True
    then have "[j..3] = j # [j + 1..3]" by (simp add: upto_rec1)
    with True "1.IH" show ?thesis by (subst inner_loop.simps) simp
  next
    case False
    then show ?thesis by (subst inner_loop.simps) simp
  qed
qed

lemma outer_loop_eq:
  "outer_loop d r i acc =
     acc @ concat (map (\<lambda>i. map (\<lambda>j. datepair_string (addDays d i) (addDays r j)) [- 3..3]) [i..3])"
proof (induction d r i acc rule: outer_loop.induct)
  case (1 d r i acc)
  show ?case
  proof (cases "i \<le> 3")
    case True
    then have "[i..3] = i # [i + 1..3]" by (simp add: upto_rec1)
    with True "1.IH" show ?thesis by (subst outer_loop.simps) (simp add: inner_loop_eq)
  next
    case False
    then show ?thesis by (subst outer_loop.simps) simp
  qed
qed

lemma length_grid: "length (concat (map (\<lambda>i. map (g i) ys) xs)) = length xs * length ys"
  by (induction xs) simp_all

lemma grid_length:
  "length (concat (map (\<lambda>i. map (\<lambda>j. f i j) [- 3..3::int]) [- 3..3::int])) = 49"
  by (simp only: length_grid length_upto) simp

lemma daysInMonth_ge: "28 \<le> daysInMonth y m"
  by (simp add: daysInMonth_def)

lemma daysInMonth_le: "daysInMonth y m \<le> 31"
  by (simp add: daysInMonth_def)

lemma valid_nextDay: "valid_civil c \<Longrightarrow> valid_civil (nextDay c)"
  using daysInMonth_ge[of "year c" "month c + 1"] daysInMonth_ge[of "year c + 1" 1]
  by (auto simp: valid_civil_def nextDay_def)

lemma valid_prevDay: "valid_civil c \<Longrightarrow> valid_civil (prevDay c)"
  using daysInMonth_ge[of "year c" "month c - 1"]
  by (auto simp: valid_civil_def prevDay_def daysInMonth_def)

lemma year_nextDay: "year c \<le> year (nextDay c) \<and> year (nextDay c) \<le> year c + 1"
  by (simp add: nextDay_def)

lemma year_prevDay: "year c - 1 \<le> year (prevDay c) \<and> year (prevDay c) \<le> year c"
  by (simp add: prevDay_def)

lemma valid_funpow_next: "valid_civil c \<Longrightarrow> valid_civil ((nextDay ^^ k) c)"
  by (induction k) (simp_all add: valid_nextDay)

lemma valid_funpow_prev: "valid_civil c \<Longrightarrow> valid_civil ((prevDay ^^ k) c)"
  by (induction k) (simp_all add: valid_prevDay)

lemma year_funpow_next:
  "year c \<le> year ((nextDay ^^ k) c) \<and> year ((nextDay ^^ k) c) \<le> year c + int k"
proof (induction k)
  case 0
  then show ?case by simp
next
  case (Suc k)
  then show ?case using year_nextDay[of "(nextDay ^^ k) c"] by simp
qed

lemma year_funpow_prev:
  "year c - int k \<le> year ((prevDay ^^ k) c) \<and> year ((prevDay ^^ k) c) \<le> year c"
proof (induction k)
  case 0
  then show ?case by simp
next
  case (Suc k)
  then show ?case using year_prevDay[of "(prevDay ^^ k) c"] by simp
qed

lemma valid_addDays: "valid_civil c \<Longrightarrow> valid_civil (addDays c n)"
  by (simp add: addDays_def valid_funpow_next valid_funpow_prev)

lemma year_addDays:
  "year c - \<bar>n\<bar> \<le> year (addDays c n) \<and> year (addDays c n) \<le> year c + \<bar>n\<bar>"
  using year_funpow_next[of c "nat n"] year_funpow_prev[of c "nat (- n)"]
  by (auto simp: addDays_def)

lemma digit_char_is_digit: "k < 10 \<Longrightarrow> is_digit (digit_chars ! k)"
proof -
  assume "k < 10"
  then have "k < length digit_chars" by (simp add: digit_chars_def)
  then show ?thesis unfolding is_digit_def by (rule nth_mem)
qed

lemma digits_of_digits: "list_all is_digit (digits_of n)"
proof (induction n rule: digits_of.induct)
  case (1 n)
  show ?case
  proof (cases "n < 10")
    case True
    then show ?thesis by (subst digits_of.simps) (simp add: digit_char_is_digit)
  next
    case False
    then show ?thesis using "1.IH"
      by (subst digits_of.simps) (simp add: digit_char_is_digit)
  qed
qed

lemma digits_of_length_1: "n < 10 \<Longrightarrow> length (digits_of n) = 1"
  by (subst digits_of.simps) simp

lemma digits_of_length_2: "n < 100 \<Longrightarrow> length (digits_of n) \<le> 2"
  by (subst digits_of.simps) (auto simp: digits_of_length_1)

lemma digits_of_length_3: "n < 1000 \<Longrightarrow> length (digits_of n) \<le> 3"
  using digits_of_length_2[of "n div 10"] by (subst digits_of.simps) auto

lemma digits_of_length_4: "n < 10000 \<Longrightarrow> length (digits_of n) \<le> 4"
  using digits_of_length_3[of "n div 10"] by (subst digits_of.simps) auto

lemma addLeadingZeros_shape:
  "length (digits_of n) \<le> k \<Longrightarrow>
   length (addLeadingZeros n k) = k \<and> list_all is_digit (addLeadingZeros n k)"
proof -
  have "is_digit CHR ''0''" by (simp add: is_digit_def digit_chars_def)
  then have "list_all is_digit (replicate j CHR ''0'')" for j
    by (simp add: list_all_iff)
  moreover assume "length (digits_of n) \<le> k"
  ultimately show ?thesis
    by (simp add: addLeadingZeros_def digits_of_digits)
qed

lemma format_is_ymd:
  assumes "valid_civil c" "- 9998 \<le> year c" "year c \<le> 9999"
  shows "is_ymd (format_yyyy_MM_dd c)"
proof -
  let ?y = "addLeadingZeros (nat (if 0 < year c then year c else 1 - year c)) 4"
  let ?m = "addLeadingZeros (nat (month c)) 2"
  let ?d = "addLeadingZeros (nat (day c)) 2"
  have "nat (if 0 < year c then year c else 1 - year c) < 10000" using assms by auto
  then have y: "length ?y = 4" "list_all is_digit ?y"
    using addLeadingZeros_shape digits_of_length_4 by blast+
  have "nat (month c) < 100" using assms(1) by (auto simp: valid_civil_def)
  then have m: "length ?m = 2" "list_all is_digit ?m"
    using addLeadingZeros_shape digits_of_length_2 by blast+
  have "nat (day c) < 100"
    using assms(1) daysInMonth_le[of "year c" "month c"] by (auto simp: valid_civil_def)
  then have d: "length ?d = 2" "list_all is_digit ?d"
    using addLeadingZeros_shape digits_of_length_2 by blast+
  show ?thesis
    using y m d by (simp add: is_ymd_def format_yyyy_MM_dd_def nth_append)
qed

lemma datepair_string_shape:
  "is_ymd (format_yyyy_MM_dd a) \<Longrightarrow> is_ymd (format_yyyy_MM_dd b) \<Longrightarrow>
   is_datepair (datepair_string a b)"
  by (simp add: is_datepair_def datepair_string_def is_ymd_def nth_append)

subsection \<open>Evaluation at the pivots of the specification\<close>

lemmas shift_eval =
  addDays_def prevDay_def nextDay_def daysInMonth_def leap_def eval_nat_numeral

lemmas print_eval =
  format_yyyy_MM_dd_def addLeadingZeros_def digits_of.simps digit_chars_def

lemma upto_m3_3: "[- 3..3] = [- 3, - 2, - 1, 0, 1, 2, 3::int]"
  by (simp add: upto_rec1)

lemma cartesian_datepairs_printed:
  "cartesian_datepairs d r =
     concat (map (\<lambda>a. map (\<lambda>b. a @ ''>'' @ b)
                          (map format_yyyy_MM_dd (map (addDays r) [- 3..3])))
                 (map format_yyyy_MM_dd (map (addDays d) [- 3..3])))"
  unfolding cartesian_datepairs_def datepair_string_def map_map comp_def ..

lemma days_around_10:
  "map (addDays \<lparr>year = 2024, month = 6, day = 10\<rparr>) [- 3..3] =
     [\<lparr>year = 2024, month = 6, day = 7\<rparr>,
      \<lparr>year = 2024, month = 6, day = 8\<rparr>,
      \<lparr>year = 2024, month = 6, day = 9\<rparr>,
      \<lparr>year = 2024, month = 6, day = 10\<rparr>,
      \<lparr>year = 2024, month = 6, day = 11\<rparr>,
      \<lparr>year = 2024, month = 6, day = 12\<rparr>,
      \<lparr>year = 2024, month = 6, day = 13\<rparr>]"
  unfolding upto_m3_3 list.map by (simp add: shift_eval)

lemma printed_around_10:
  "map format_yyyy_MM_dd
     [\<lparr>year = 2024, month = 6, day = 7\<rparr>,
      \<lparr>year = 2024, month = 6, day = 8\<rparr>,
      \<lparr>year = 2024, month = 6, day = 9\<rparr>,
      \<lparr>year = 2024, month = 6, day = 10\<rparr>,
      \<lparr>year = 2024, month = 6, day = 11\<rparr>,
      \<lparr>year = 2024, month = 6, day = 12\<rparr>,
      \<lparr>year = 2024, month = 6, day = 13\<rparr>] =
   [''2024-06-07'', ''2024-06-08'', ''2024-06-09'', ''2024-06-10'', ''2024-06-11'', ''2024-06-12'', ''2024-06-13'']"
  unfolding list.map by (simp add: print_eval)

lemma days_around_17:
  "map (addDays \<lparr>year = 2024, month = 6, day = 17\<rparr>) [- 3..3] =
     [\<lparr>year = 2024, month = 6, day = 14\<rparr>,
      \<lparr>year = 2024, month = 6, day = 15\<rparr>,
      \<lparr>year = 2024, month = 6, day = 16\<rparr>,
      \<lparr>year = 2024, month = 6, day = 17\<rparr>,
      \<lparr>year = 2024, month = 6, day = 18\<rparr>,
      \<lparr>year = 2024, month = 6, day = 19\<rparr>,
      \<lparr>year = 2024, month = 6, day = 20\<rparr>]"
  unfolding upto_m3_3 list.map by (simp add: shift_eval)

lemma printed_around_17:
  "map format_yyyy_MM_dd
     [\<lparr>year = 2024, month = 6, day = 14\<rparr>,
      \<lparr>year = 2024, month = 6, day = 15\<rparr>,
      \<lparr>year = 2024, month = 6, day = 16\<rparr>,
      \<lparr>year = 2024, month = 6, day = 17\<rparr>,
      \<lparr>year = 2024, month = 6, day = 18\<rparr>,
      \<lparr>year = 2024, month = 6, day = 19\<rparr>,
      \<lparr>year = 2024, month = 6, day = 20\<rparr>] =
   [''2024-06-14'', ''2024-06-15'', ''2024-06-16'', ''2024-06-17'', ''2024-06-18'', ''2024-06-19'', ''2024-06-20'']"
  unfolding list.map by (simp add: print_eval)





lemma grid_pivot: "cartesian_datepairs \<lparr>year = 2024, month = 6, day = 10\<rparr> \<lparr>year = 2024, month = 6, day = 17\<rparr> = pivot_grid"
  unfolding cartesian_datepairs_printed days_around_10 days_around_17
    printed_around_10 printed_around_17 pivot_grid_def
  by simp


lemma pivot_grid_facts:
  "length pivot_grid = 49 \<and> distinct pivot_grid \<and> ''2024-06-10>2024-06-17'' \<in> set pivot_grid"
  unfolding pivot_grid_def by simp


subsection \<open>generateCalendarDatepairs\<close>

lemma generateCalendarDatepairs_eq:
  assumes "newDate departureDate' = Some d" and "newDate returnDate' = Some r"
  shows "generateCalendarDatepairs newDate departureDate' returnDate'
           = Inr (cartesian_datepairs d r)"
  using assms
  by (simp add: generateCalendarDatepairs_def outer_loop_eq cartesian_datepairs_def)

lemma generateCalendarDatepairs_invalid:
  "newDate departureDate' = None \<or> newDate returnDate' = None \<Longrightarrow>
   generateCalendarDatepairs newDate departureDate' returnDate' = Inl RangeError"
  by (auto simp: generateCalendarDatepairs_def split: option.splits)

lemma cartesian_datepairs_length: "length (cartesian_datepairs d r) = 49"
  unfolding cartesian_datepairs_def by (rule grid_length)

lemma window_day_is_ymd:
  assumes "valid_civil c" "- 9995 \<le> year c" "year c \<le> 9996" "\<bar>n\<bar> \<le> 3"
  shows "is_ymd (format_yyyy_MM_dd (addDays c n))"
proof (rule format_is_ymd)
  show "valid_civil (addDays c n)"
    using assms(1) by (simp add: valid_addDays)
  show "- 9998 \<le> year (addDays c n)"
    using year_addDays[of c n] assms by linarith
  show "year (addDays c n) \<le> 9999"
    using year_addDays[of c n] assms by linarith
qed

lemma cartesian_datepairs_shape:
  assumes "valid_civil d" "- 9995 \<le> year d" "year d \<le> 9996"
    and "valid_civil r" "- 9995 \<le> year r" "year r \<le> 9996"
  shows "list_all is_datepair (cartesian_datepairs d r)"
proof -
  have "is_datepair (datepair_string (addDays d i) (addDays r j))"
    if "i \<in> set [- 3..3]" "j \<in> set [- 3..3]" for i j
  proof -
    from that have "\<bar>i\<bar> \<le> 3" "\<bar>j\<bar> \<le> 3" by auto
    then show ?thesis
      using assms by (intro datepair_string_shape window_day_is_ymd)
  qed
  then show ?thesis
    unfolding cartesian_datepairs_def list_all_iff by auto
qed

text \<open>
  What the loops compute, for any date constructor: when both strings give a date, the
  list is the grid of the offsets \<open>-3..3\<close> around the two local calendar days the
  constructor gives, 49 date pairs, each of the shape \<^verbatim>\<open>YYYY-MM-DD>YYYY-MM-DD\<close> for
  years of four digits. On a server at UTC the constructor gives the pivot days
  themselves, and for 2024-06-10 and 2024-06-17 the list is the grid of the
  specification: 49 different pairs, the pivot pair among them.
\<close>

lemma generateCalendarDatepairs_grid:
  assumes "newDate departureDate' = Some d" and "newDate returnDate' = Some r"
  shows "generateCalendarDatepairs newDate departureDate' returnDate'
           = Inr (cartesian_datepairs d r)
       \<and> length (cartesian_datepairs d r) = 49
       \<and> (valid_civil d \<and> - 9995 \<le> year d \<and> year d \<le> 9996
            \<and> valid_civil r \<and> - 9995 \<le> year r \<and> year r \<le> 9996 \<longrightarrow>
            list_all is_datepair (cartesian_datepairs d r))"
  using generateCalendarDatepairs_eq[OF assms] cartesian_datepairs_shape[of d r]
  by (simp add: cartesian_datepairs_length)

lemma generateCalendarDatepairs_at_utc:
  assumes "newDate ''2024-06-10'' = Some \<lparr>year = 2024, month = 6, day = 10\<rparr>"
    and "newDate ''2024-06-17'' = Some \<lparr>year = 2024, month = 6, day = 17\<rparr>"
  shows "generateCalendarDatepairs newDate ''2024-06-10'' ''2024-06-17'' = Inr pivot_grid
       \<and> length pivot_grid = 49 \<and> distinct pivot_grid
       \<and> ''2024-06-10>2024-06-17'' \<in> set pivot_grid"
  using generateCalendarDatepairs_eq[where newDate = newDate
      and departureDate' = "''2024-06-10''" and returnDate' = "''2024-06-17''", OF assms]
    pivot_grid_facts
  by (simp add: grid_pivot)



section \<open>Properties of the price scanner\<close>

subsection \<open>The object of results\<close>

lemma set_own_keys: "fst ` set (set_own k v fl) = insert k (fst ` set fl)"
proof (induction fl)
  case Nil
  show ?case by simp
next
  case (Cons p fl)
  obtain k' v' where p: "p = (k', v')" by (cases p)
  show ?case
  proof (cases "k' = k")
    case True
    then show ?thesis using p by simp
  next
    case False
    then show ?thesis using p Cons.IH by (simp add: insert_commute)
  qed
qed

lemma set_own_distinct: "distinct (map fst fl) \<Longrightarrow> distinct (map fst (set_own k v fl))"
proof (induction fl)
  case Nil
  show ?case by simp
next
  case (Cons p fl)
  obtain k' v' where p: "p = (k', v')" by (cases p)
  show ?case
  proof (cases "k' = k")
    case True
    then show ?thesis using p Cons.prems by simp
  next
    case False
    then show ?thesis using p Cons set_own_keys[of k v fl] by simp
  qed
qed

lemma set_own_map_of: "map_of (set_own k v fl) = (map_of fl)(k \<mapsto> v)"
  by (induction fl) auto

lemma assign_keys:
  "fst ` set (assign k v fl)
     = (if k = ''__proto__'' then fst ` set fl else insert k (fst ` set fl))"
  by (simp add: assign_def set_own_keys)

lemma assign_distinct: "distinct (map fst fl) \<Longrightarrow> distinct (map fst (assign k v fl))"
  by (simp add: assign_def set_own_distinct)

lemma assign_map_of:
  "d \<noteq> ''__proto__'' \<Longrightarrow>
   map_of (assign k v fl) d = (if k = d then Some v else map_of fl d)"
  by (simp add: assign_def set_own_map_of)

lemma is_datepair_not_proto: "is_datepair d \<Longrightarrow> d \<noteq> ''__proto__''"
  by (auto simp: is_datepair_def)

lemma filter_update_same:
  "i < length xs \<Longrightarrow> \<not> P (xs ! i) \<Longrightarrow> \<not> P v \<Longrightarrow>
   length (filter P (xs[i := v])) = length (filter P xs)"
proof (induction xs arbitrary: i)
  case Nil
  then show ?case by simp
next
  case (Cons x xs)
  then show ?case by (cases i) simp_all
qed

lemma filter_update_new:
  "i < length xs \<Longrightarrow> \<not> P (xs ! i) \<Longrightarrow> P v \<Longrightarrow>
   length (filter P (xs[i := v])) = Suc (length (filter P xs))"
proof (induction xs arbitrary: i)
  case Nil
  then show ?case by simp
next
  case (Cons x xs)
  then show ?case by (cases i) simp_all
qed

lemma filter_all: "length (filter P xs) = length xs \<longleftrightarrow> list_all P xs"
proof
  assume eq: "length (filter P xs) = length xs"
  show "list_all P xs"
  proof (rule ccontr)
    assume "\<not> list_all P xs"
    then obtain x where "x \<in> set xs" "\<not> P x" by (auto simp: list_all_iff)
    then have "length (filter P xs) < length xs" by (rule length_filter_less)
    with eq show False by simp
  qed
next
  assume "list_all P xs"
  then have "filter P xs = xs" by (simp add: list_all_iff)
  then show "length (filter P xs) = length xs" by simp
qed

lemma on_settle_fields:
  "flights (on_settle parseFloat numberFormat d up st)
     = assign d (stored_value parseFloat numberFormat up) (flights st)"
  "promise (on_settle parseFloat numberFormat d up st) = promise st"
  "responseCount (on_settle parseFloat numberFormat d up st) = responseCount st"
  "jobs (on_settle parseFloat numberFormat d up st) = jobs st"
  by (simp_all add: on_settle_def stored_value_def split: sum.split)

lemma on_finally_fields:
  "flights (on_finally dps st) = flights st"
  "responseCount (on_finally dps st) = Suc (responseCount st)"
  "jobs (on_finally dps st) = jobs st"
  "promise (on_finally dps st)
     = (if Suc (responseCount st) = length dps then resolve (flights st) (promise st)
        else promise st)"
  by (simp_all add: on_finally_def Let_def)

lemma inv_start: "scan_inv dps (pricesForDatepairs_start dps)"
  by (auto simp: scan_inv_def pricesForDatepairs_start_def all_settled_def list_all_iff)

lemma not_all_settled_at:
  "i < length (jobs st) \<Longrightarrow> jobs st ! i \<noteq> Finished \<Longrightarrow> \<not> all_settled st"
  by (auto simp: all_settled_def list_all_iff)

subsection \<open>The invariant\<close>

lemma inv_settle:
  assumes inv: "scan_inv dps st"
    and i: "i < length dps" and sched: "jobs st ! i = Scheduled"
  shows "scan_inv dps
           ((on_settle parseFloat numberFormat (dps ! i) (ups ! i) st)
              \<lparr>jobs := (jobs st)[i := Recorded]\<rparr>)"
    (is "scan_inv _ ?st'")
proof -
  from inv have len: "length (jobs st) = length dps"
    and rc: "responseCount st = length (filter (\<lambda>ph. ph = Finished) (jobs st))"
    and keys: "fst ` set (flights st)
        = {dps ! k |k. k < length dps \<and> jobs st ! k \<noteq> Scheduled \<and> dps ! k \<noteq> ''__proto__''}"
    and dist: "distinct (map fst (flights st))"
    and prom: "promise st = (if dps \<noteq> [] \<and> all_settled st then Some (Fulfilled (flights st)) else None)"
    by (simp_all add: scan_inv_def)
  have f: "flights ?st' = assign (dps ! i) (stored_value parseFloat numberFormat (ups ! i)) (flights st)"
    by (simp add: on_settle_fields)
  have nth': "jobs ?st' ! k = (if k = i then Recorded else jobs st ! k)" if "k < length dps" for k
    using that len by (simp add: nth_list_update)
  have 1: "length (jobs ?st') = length dps" using len by simp
  have 2: "responseCount ?st' = length (filter (\<lambda>ph. ph = Finished) (jobs ?st'))"
    using rc i len sched by (simp add: on_settle_fields filter_update_same)
  have "{dps ! k |k. k < length dps \<and> jobs ?st' ! k \<noteq> Scheduled \<and> dps ! k \<noteq> ''__proto__''}
          = (if dps ! i = ''__proto__''
             then {dps ! k |k. k < length dps \<and> jobs st ! k \<noteq> Scheduled \<and> dps ! k \<noteq> ''__proto__''}
             else insert (dps ! i)
               {dps ! k |k. k < length dps \<and> jobs st ! k \<noteq> Scheduled \<and> dps ! k \<noteq> ''__proto__''})"
    using i sched nth' by (auto split: if_splits)
  then have 3: "fst ` set (flights ?st')
      = {dps ! k |k. k < length dps \<and> jobs ?st' ! k \<noteq> Scheduled \<and> dps ! k \<noteq> ''__proto__''}"
    using keys by (simp only: f assign_keys)
  have 4: "distinct (map fst (flights ?st'))"
    using dist by (simp only: f assign_distinct)
  have "\<not> all_settled st" using not_all_settled_at[of i st] i len sched by simp
  moreover have "\<not> all_settled ?st'"
    using not_all_settled_at[of i ?st'] i len by simp
  ultimately have 5: "promise ?st' =
      (if dps \<noteq> [] \<and> all_settled ?st' then Some (Fulfilled (flights ?st')) else None)"
    using prom by (simp add: on_settle_fields)
  show ?thesis
    unfolding scan_inv_def using 1 2 3 4 5 by blast
qed

lemma inv_finally:
  assumes inv: "scan_inv dps st"
    and i: "i < length dps" and rec: "jobs st ! i = Recorded"
  shows "scan_inv dps ((on_finally dps st)\<lparr>jobs := (jobs st)[i := Finished]\<rparr>)"
    (is "scan_inv _ ?st'")
proof -
  from inv have len: "length (jobs st) = length dps"
    and rc: "responseCount st = length (filter (\<lambda>ph. ph = Finished) (jobs st))"
    and keys: "fst ` set (flights st)
        = {dps ! k |k. k < length dps \<and> jobs st ! k \<noteq> Scheduled \<and> dps ! k \<noteq> ''__proto__''}"
    and dist: "distinct (map fst (flights st))"
    and prom: "promise st = (if dps \<noteq> [] \<and> all_settled st then Some (Fulfilled (flights st)) else None)"
    by (simp_all add: scan_inv_def)
  have f: "flights ?st' = flights st" by (simp add: on_finally_fields)
  have nth': "jobs ?st' ! k = (if k = i then Finished else jobs st ! k)" if "k < length dps" for k
    using that len by (simp add: nth_list_update)
  have ns: "jobs ?st' ! k \<noteq> Scheduled \<longleftrightarrow> jobs st ! k \<noteq> Scheduled" if "k < length dps" for k
    using nth'[OF that] rec by auto
  have 1: "length (jobs ?st') = length dps" using len by simp
  have cnt: "length (filter (\<lambda>ph. ph = Finished) (jobs ?st')) = Suc (responseCount st)"
    using rc i len rec by (simp add: filter_update_new)
  then have 2: "responseCount ?st' = length (filter (\<lambda>ph. ph = Finished) (jobs ?st'))"
    by (simp add: on_finally_fields)
  have "{dps ! k |k. k < length dps \<and> jobs ?st' ! k \<noteq> Scheduled \<and> dps ! k \<noteq> ''__proto__''}
          = {dps ! k |k. k < length dps \<and> jobs st ! k \<noteq> Scheduled \<and> dps ! k \<noteq> ''__proto__''}"
    using ns by blast
  then have 3: "fst ` set (flights ?st')
      = {dps ! k |k. k < length dps \<and> jobs ?st' ! k \<noteq> Scheduled \<and> dps ! k \<noteq> ''__proto__''}"
    using keys f by simp
  have 4: "distinct (map fst (flights ?st'))" using dist f by simp
  have "\<not> all_settled st" using not_all_settled_at[of i st] i len rec by simp
  then have p0: "promise st = None" using prom by simp
  have "all_settled ?st' \<longleftrightarrow> Suc (responseCount st) = length dps"
    using cnt 1 filter_all[of "\<lambda>ph. ph = Finished" "jobs ?st'"]
    by (simp add: all_settled_def)
  moreover have "dps \<noteq> []" using i by auto
  ultimately have 5: "promise ?st' =
      (if dps \<noteq> [] \<and> all_settled ?st' then Some (Fulfilled (flights ?st')) else None)"
    using p0 by (simp add: on_finally_fields resolve_def)
  show ?thesis
    unfolding scan_inv_def using 1 2 3 4 5 by blast
qed

lemma step_cases:
  assumes "step parseFloat numberFormat dps ups e st = Some st'"
  shows "(\<exists>i. e = Settle i \<and> i < length dps \<and> jobs st ! i = Scheduled
            \<and> st' = (on_settle parseFloat numberFormat (dps ! i) (ups ! i) st)
                      \<lparr>jobs := (jobs st)[i := Recorded]\<rparr>)
       \<or> (\<exists>i. e = Finally i \<and> i < length dps \<and> jobs st ! i = Recorded
            \<and> st' = (on_finally dps st)\<lparr>jobs := (jobs st)[i := Finished]\<rparr>)"
  using assms by (cases e) (auto split: if_splits)

lemma inv_step:
  assumes "scan_inv dps st"
    and "step parseFloat numberFormat dps ups e st = Some st'"
  shows "scan_inv dps st'"
  using step_cases[OF assms(2)] inv_settle[OF assms(1)] inv_finally[OF assms(1)] by auto

lemma inv_run:
  assumes "scan_inv dps st"
    and "run parseFloat numberFormat dps ups es st = Some st'"
  shows "scan_inv dps st'"
  using assms
proof (induction es arbitrary: st)
  case Nil
  then show ?case by simp
next
  case (Cons e es)
  then obtain st1 where s: "step parseFloat numberFormat dps ups e st = Some st1"
    and r: "run parseFloat numberFormat dps ups es st1 = Some st'"
    by (auto split: option.splits)
  from inv_step[OF Cons.prems(1) s] r show ?case by (rule Cons.IH)
qed

lemma pricesForDatepairs_inv:
  "pricesForDatepairs parseFloat numberFormat dps ups es = Some st \<Longrightarrow> scan_inv dps st"
  unfolding pricesForDatepairs_def using inv_start by (rule inv_run)


subsection \<open>The value under a date pair\<close>

lemma step_flights:
  assumes "step parseFloat numberFormat dps ups e st = Some st'" and "d \<noteq> ''__proto__''"
  shows "map_of (flights st') d
           = (case e of
                Settle i \<Rightarrow>
                  if i < length dps \<and> dps ! i = d
                  then Some (stored_value parseFloat numberFormat (ups ! i))
                  else map_of (flights st) d
              | Finally i \<Rightarrow> map_of (flights st) d)"
  using step_cases[OF assms(1)] assms(2)
  by (auto simp: on_settle_fields on_finally_fields assign_map_of)

lemma run_values:
  assumes "d \<noteq> ''__proto__''"
    and "run parseFloat numberFormat dps ups es st = Some st'"
  shows "map_of (flights st') d
           = (case last_settled dps es d of
                Some i \<Rightarrow> Some (stored_value parseFloat numberFormat (ups ! i))
              | None \<Rightarrow> map_of (flights st) d)"
  using assms(2)
proof (induction es arbitrary: st)
  case Nil
  then show ?case by simp
next
  case (Cons e es)
  then obtain st1 where s: "step parseFloat numberFormat dps ups e st = Some st1"
    and r: "run parseFloat numberFormat dps ups es st1 = Some st'"
    by (auto split: option.splits)
  note ih = Cons.IH[OF r]
  note sf = step_flights[OF s assms(1)]
  show ?case
  proof (cases "last_settled dps es d")
    case (Some j)
    with ih show ?thesis by simp
  next
    case None
    with ih sf show ?thesis by (cases e) simp_all
  qed
qed

lemma run_settled_events:
  assumes "run parseFloat numberFormat dps ups es st = Some st'"
    and "jobs st' ! k \<noteq> Scheduled"
  shows "jobs st ! k \<noteq> Scheduled \<or> (Settle k \<in> set es \<and> k < length dps)"
  using assms
proof (induction es arbitrary: st)
  case Nil
  then show ?case by simp
next
  case (Cons e es)
  then obtain st1 where s: "step parseFloat numberFormat dps ups e st = Some st1"
    and r: "run parseFloat numberFormat dps ups es st1 = Some st'"
    by (auto split: option.splits)
  from Cons.IH[OF r Cons.prems(2)]
  consider "Settle k \<in> set es \<and> k < length dps" | "jobs st1 ! k \<noteq> Scheduled" by blast
  then show ?case
  proof cases
    case 1
    then show ?thesis by simp
  next
    case 2
    from step_cases[OF s] show ?thesis
    proof (elim disjE exE conjE)
      fix i
      assume e: "e = Settle i" and i: "i < length dps"
        and st1: "st1 = (on_settle parseFloat numberFormat (dps ! i) (ups ! i) st)
                          \<lparr>jobs := (jobs st)[i := Recorded]\<rparr>"
      show ?thesis
      proof (cases "k = i")
        case True
        with e i show ?thesis by simp
      next
        case False
        with 2 st1 show ?thesis by (simp add: on_settle_fields)
      qed
    next
      fix i
      assume e: "e = Finally i" and rec: "jobs st ! i = Recorded"
        and st1: "st1 = (on_finally dps st)\<lparr>jobs := (jobs st)[i := Finished]\<rparr>"
      show ?thesis
      proof (cases "k = i")
        case True
        with rec show ?thesis by simp
      next
        case False
        with 2 st1 show ?thesis by (simp add: on_finally_fields)
      qed
    qed
  qed
qed

lemma last_settled_Some:
  "last_settled dps es d = Some i \<Longrightarrow> i < length dps \<and> dps ! i = d"
  by (induction es) (auto split: option.splits event.splits if_splits)

lemma last_settled_exists:
  "Settle i \<in> set es \<Longrightarrow> i < length dps \<Longrightarrow> dps ! i = d \<Longrightarrow>
   \<exists>j. last_settled dps es d = Some j"
  by (induction es) (auto split: option.splits event.splits)

lemma all_settled_last:
  assumes r: "pricesForDatepairs parseFloat numberFormat dps ups es = Some st"
    and s: "all_settled st" and k: "k < length dps" and np: "dps ! k \<noteq> ''__proto__''"
  shows "\<exists>i<length dps. dps ! i = dps ! k
            \<and> last_settled dps es (dps ! k) = Some i
            \<and> map_of (flights st) (dps ! k)
                = Some (stored_value parseFloat numberFormat (ups ! i))"
proof -
  have len: "length (jobs st) = length dps"
    using pricesForDatepairs_inv[OF r] by (simp add: scan_inv_def)
  have run: "run parseFloat numberFormat dps ups es (pricesForDatepairs_start dps) = Some st"
    using r by (simp add: pricesForDatepairs_def)
  have "jobs st ! k \<noteq> Scheduled"
    using s k len by (simp add: all_settled_def list_all_length)
  from run_settled_events[OF run this] k have "Settle k \<in> set es"
    by (simp add: pricesForDatepairs_start_def)
  from last_settled_exists[OF this k refl] obtain i
    where ls: "last_settled dps es (dps ! k) = Some i" by blast
  from last_settled_Some[OF ls] have i: "i < length dps" "dps ! i = dps ! k" by simp_all
  have "map_of (flights st) (dps ! k) = Some (stored_value parseFloat numberFormat (ups ! i))"
    using run_values[OF np run] ls by simp
  with ls i show ?thesis by blast
qed

lemma all_settled_own:
  assumes r: "pricesForDatepairs parseFloat numberFormat dps ups es = Some st"
    and s: "all_settled st" and k: "k < length dps" and np: "dps ! k \<noteq> ''__proto__''"
    and d: "distinct dps"
  shows "map_of (flights st) (dps ! k) = Some (stored_value parseFloat numberFormat (ups ! k))"
proof -
  from all_settled_last[OF r s k np] obtain i where i: "i < length dps" "dps ! i = dps ! k"
    and m: "map_of (flights st) (dps ! k) = Some (stored_value parseFloat numberFormat (ups ! i))"
    by blast
  from i d k have "i = k" by (simp add: nth_eq_iff_index_eq)
  with m show ?thesis by simp
qed


subsection \<open>The settled scan\<close>

lemmas scan_eval =
  pricesForDatepairs_def pricesForDatepairs_start_def on_settle_def on_finally_def
  query_result_def then_callback_def resolve_def Let_def assign_def
  sample_parseFloat_def sample_numberFormat_def priced_response_def no_offers_response_def

lemmas datepair_eval = is_datepair_def is_ymd_def is_digit_def digit_chars_def

lemma stored_value_rejected: "stored_value parseFloat numberFormat (UpRejected err) = EmptyObject"
  by (simp add: stored_value_def query_result_def)

lemma stored_value_no_offers:
  "sdk_data res = [] \<Longrightarrow> stored_value parseFloat numberFormat (UpFulfilled res) = EmptyObject"
  by (simp add: stored_value_def query_result_def then_callback_def)

lemma stored_value_no_formatter:
  "sdk_data res = first # rest \<Longrightarrow> numberFormat (currency (price first)) = None \<Longrightarrow>
   stored_value parseFloat numberFormat (UpFulfilled res) = EmptyObject"
  by (simp add: stored_value_def query_result_def then_callback_def)

lemma stored_value_priced:
  "sdk_data res = first # rest \<Longrightarrow> numberFormat (currency (price first)) = Some fmt \<Longrightarrow>
   stored_value parseFloat numberFormat (UpFulfilled res)
     = PriceResult (parseFloat (total (price first))) (fmt (total (price first)))"
  by (simp add: stored_value_def query_result_def then_callback_def)

lemma all_settled_keys:
  assumes "scan_inv dps st" and "all_settled st"
  shows "fst ` set (flights st) = set dps - {''__proto__''}"
proof -
  from assms(1) have len: "length (jobs st) = length dps"
    and keys: "fst ` set (flights st)
        = {dps ! k |k. k < length dps \<and> jobs st ! k \<noteq> Scheduled \<and> dps ! k \<noteq> ''__proto__''}"
    by (simp_all add: scan_inv_def)
  have ns: "jobs st ! k \<noteq> Scheduled" if "k < length dps" for k
    using assms(2) that len by (simp add: all_settled_def list_all_length)
  have "{dps ! k |k. k < length dps \<and> jobs st ! k \<noteq> Scheduled \<and> dps ! k \<noteq> ''__proto__''}
      = set dps - {''__proto__''}"
  proof (rule set_eqI)
    fix x
    show "x \<in> {dps ! k |k. k < length dps \<and> jobs st ! k \<noteq> Scheduled \<and> dps ! k \<noteq> ''__proto__''}
        \<longleftrightarrow> x \<in> set dps - {''__proto__''}"
    proof
      assume "x \<in> {dps ! k |k. k < length dps \<and> jobs st ! k \<noteq> Scheduled \<and> dps ! k \<noteq> ''__proto__''}"
      then obtain k where "k < length dps" "x = dps ! k" "x \<noteq> ''__proto__''" by auto
      then show "x \<in> set dps - {''__proto__''}" by simp
    next
      assume "x \<in> set dps - {''__proto__''}"
      then obtain k where k: "k < length dps" "dps ! k = x" and x: "x \<noteq> ''__proto__''"
        by (auto simp: in_set_conv_nth)
      from k x ns[OF k(1)] show
        "x \<in> {dps ! k |k. k < length dps \<and> jobs st ! k \<noteq> Scheduled \<and> dps ! k \<noteq> ''__proto__''}"
        by auto
    qed
  qed
  with keys show ?thesis by simp
qed

lemma datepairs_no_proto:
  "list_all is_datepair dps \<Longrightarrow> set dps - {''__proto__''} = set dps"
proof -
  assume "list_all is_datepair dps"
  then have "''__proto__'' \<notin> set dps"
    by (auto simp: list_all_iff dest: is_datepair_not_proto)
  then show ?thesis by simp
qed

lemma inv_promise:
  "scan_inv dps st \<Longrightarrow>
   promise st = (if dps \<noteq> [] \<and> all_settled st then Some (Fulfilled (flights st)) else None)"
  by (simp add: scan_inv_def)

lemma inv_distinct_keys: "scan_inv dps st \<Longrightarrow> distinct (map fst (flights st))"
  by (simp add: scan_inv_def)


text \<open>
  Claim C2, as the code has it. For a non-empty list of date pairs
  \<^verbatim>\<open>YYYY-MM-DD>YYYY-MM-DD\<close>, in every state the callbacks can reach: the promise is
  never rejected; it is fulfilled, with the object \<^verbatim>\<open>flights\<close>, exactly when every
  query has settled and its \<^verbatim>\<open>.finally\<close> callback has run, and pending before. The
  object then has a key for every date pair of the list, and each pair maps to what the
  query for that pair that settled last has left; when the pairs are pairwise different
  that is the pair's own query. A query leaves the empty object when it was rejected,
  when its answer holds no offers and when the formatter refuses the currency; it leaves
  the price and the formatted price of the first offer otherwise. The outcome of the
  query for one pair changes nothing under another pair.
\<close>

theorem pricesForDatepairs_full_barrier:
  assumes "datepairs \<noteq> []" and "list_all is_datepair datepairs"
    and "pricesForDatepairs parseFloat numberFormat datepairs upstreams events = Some st"
  shows "promise st = (if all_settled st then Some (Fulfilled (flights st)) else None)
       \<and> (all_settled st \<longrightarrow> fst ` set (flights st) = set datepairs)
       \<and> (all_settled st \<longrightarrow>
            (\<forall>k<length datepairs. \<exists>i<length datepairs.
               datepairs ! i = datepairs ! k
               \<and> last_settled datepairs events (datepairs ! k) = Some i
               \<and> map_of (flights st) (datepairs ! k)
                   = Some (stored_value parseFloat numberFormat (upstreams ! i))))
       \<and> (all_settled st \<and> distinct datepairs \<longrightarrow>
            (\<forall>k<length datepairs.
               map_of (flights st) (datepairs ! k)
                 = Some (stored_value parseFloat numberFormat (upstreams ! k))))
       \<and> (\<forall>err. stored_value parseFloat numberFormat (UpRejected err) = EmptyObject)
       \<and> (\<forall>res. sdk_data res = [] \<longrightarrow>
            stored_value parseFloat numberFormat (UpFulfilled res) = EmptyObject)
       \<and> (\<forall>res first rest. sdk_data res = first # rest
              \<and> numberFormat (currency (price first)) = None \<longrightarrow>
            stored_value parseFloat numberFormat (UpFulfilled res) = EmptyObject)
       \<and> (\<forall>res first rest fmt. sdk_data res = first # rest
              \<and> numberFormat (currency (price first)) = Some fmt \<longrightarrow>
            stored_value parseFloat numberFormat (UpFulfilled res)
              = PriceResult (parseFloat (total (price first))) (fmt (total (price first))))"
proof -
  note r = assms(3)
  have inv: "scan_inv datepairs st"
    using r by (rule pricesForDatepairs_inv)
  have np: "datepairs ! k \<noteq> ''__proto__''" if "k < length datepairs" for k
    using assms(2) that is_datepair_not_proto by (simp add: list_all_length)
  have c1: "promise st = (if all_settled st then Some (Fulfilled (flights st)) else None)"
    using inv_promise[OF inv] assms(1) by simp
  have c2: "all_settled st \<longrightarrow> fst ` set (flights st) = set datepairs"
    using all_settled_keys[OF inv] datepairs_no_proto[OF assms(2)] by simp
  have c3: "all_settled st \<longrightarrow>
            (\<forall>k<length datepairs. \<exists>i<length datepairs.
               datepairs ! i = datepairs ! k
               \<and> last_settled datepairs events (datepairs ! k) = Some i
               \<and> map_of (flights st) (datepairs ! k)
                   = Some (stored_value parseFloat numberFormat (upstreams ! i)))"
  proof (intro impI allI)
    fix k
    assume s: "all_settled st" and k: "k < length datepairs"
    show "\<exists>i<length datepairs.
               datepairs ! i = datepairs ! k
               \<and> last_settled datepairs events (datepairs ! k) = Some i
               \<and> map_of (flights st) (datepairs ! k)
                   = Some (stored_value parseFloat numberFormat (upstreams ! i))"
      by (rule all_settled_last[OF r s k np[OF k]])
  qed
  have c4: "all_settled st \<and> distinct datepairs \<longrightarrow>
            (\<forall>k<length datepairs.
               map_of (flights st) (datepairs ! k)
                 = Some (stored_value parseFloat numberFormat (upstreams ! k)))"
  proof (intro impI allI)
    fix k
    assume "all_settled st \<and> distinct datepairs" and k: "k < length datepairs"
    then have s: "all_settled st" and d: "distinct datepairs" by simp_all
    show "map_of (flights st) (datepairs ! k)
            = Some (stored_value parseFloat numberFormat (upstreams ! k))"
      by (rule all_settled_own[OF r s k np[OF k] d])
  qed
  have c5: "\<forall>err. stored_value parseFloat numberFormat (UpRejected err) = EmptyObject"
    by (simp add: stored_value_rejected)
  have c6: "\<forall>res. sdk_data res = [] \<longrightarrow>
            stored_value parseFloat numberFormat (UpFulfilled res) = EmptyObject"
    by (simp add: stored_value_no_offers)
  have c7: "\<forall>res first rest. sdk_data res = first # rest
              \<and> numberFormat (currency (price first)) = None \<longrightarrow>
            stored_value parseFloat numberFormat (UpFulfilled res) = EmptyObject"
    by (simp add: stored_value_no_formatter)
  have c8: "\<forall>res first rest fmt. sdk_data res = first # rest
              \<and> numberFormat (currency (price first)) = Some fmt \<longrightarrow>
            stored_value parseFloat numberFormat (UpFulfilled res)
              = PriceResult (parseFloat (total (price first))) (fmt (total (price first)))"
    by (simp add: stored_value_priced)
  show ?thesis
    by (intro conjI c1 c2 c3 c4 c5 c6 c7 c8)
qed


subsection \<open>Runs and the endpoint\<close>

lemma in_order_2: "in_order 2 = [Settle 0, Finally 0, Settle 1, Finally 1]"
  by (simp add: in_order_def upt_rec numeral_2_eq_2)

lemma in_order_1: "in_order 1 = [Settle 0, Finally 0]"
  by (simp add: in_order_def)

lemma run_two_mixed:
  "pricesForDatepairs sample_parseFloat sample_numberFormat
     [''2024-06-10>2024-06-17'', ''2024-06-11>2024-06-17'']
     [priced_response ''512.30'', UpRejected (ResponseError 500)]
     [Settle 1, Settle 0, Finally 0, Finally 1]
   = Some \<lparr>flights = [(''2024-06-11>2024-06-17'', EmptyObject),
                        (''2024-06-10>2024-06-17'', PriceResult ''512.30'' ''EUR 512.30'')],
            responseCount = 2, errorCount = 1,
            promise = Some (Fulfilled [(''2024-06-11>2024-06-17'', EmptyObject),
                        (''2024-06-10>2024-06-17'', PriceResult ''512.30'' ''EUR 512.30'')]),
            jobs = [Finished, Finished]\<rparr>"
  by (simp add: scan_eval)

lemma run_one_priced:
  "pricesForDatepairs sample_parseFloat sample_numberFormat
     [''2024-06-10>2024-06-17''] [priced_response ''512.30''] [Settle 0, Finally 0]
   = Some \<lparr>flights = [(''2024-06-10>2024-06-17'', PriceResult ''512.30'' ''EUR 512.30'')],
            responseCount = 1, errorCount = 0,
            promise = Some (Fulfilled
              [(''2024-06-10>2024-06-17'', PriceResult ''512.30'' ''EUR 512.30'')]),
            jobs = [Finished]\<rparr>"
  by (simp add: scan_eval)

lemma two_datepairs: "list_all is_datepair [''2024-06-10>2024-06-17'', ''2024-06-11>2024-06-17'']"
  by (simp add: datepair_eval)

text \<open>
  A date pair that occurs twice, one query priced and one rejected: the value under the
  pair is that of the query that settles last.
\<close>

lemma repeated_pair_last_arrival:
  "map_option flights
     (pricesForDatepairs sample_parseFloat sample_numberFormat
        [''2024-06-10>2024-06-17'', ''2024-06-10>2024-06-17'']
        [priced_response ''512.30'', UpRejected (ResponseError 500)]
        [Settle 0, Settle 1, Finally 0, Finally 1])
   = Some [(''2024-06-10>2024-06-17'', EmptyObject)]
   \<and> map_option flights
     (pricesForDatepairs sample_parseFloat sample_numberFormat
        [''2024-06-10>2024-06-17'', ''2024-06-10>2024-06-17'']
        [priced_response ''512.30'', UpRejected (ResponseError 500)]
        [Settle 1, Settle 0, Finally 0, Finally 1])
   = Some [(''2024-06-10>2024-06-17'', PriceResult ''512.30'' ''EUR 512.30'')]"
  by (simp add: scan_eval)

text \<open>The key \<^verbatim>\<open>__proto__\<close> leaves no entry.\<close>

lemma proto_key_no_entry:
  "map_option flights
     (pricesForDatepairs sample_parseFloat sample_numberFormat
        [''__proto__''] [priced_response ''512.30''] [Settle 0, Finally 0])
   = Some []"
  by (simp add: scan_eval)

theorem pricesForDatepairs_full_barrier_witness:
  "[''2024-06-10>2024-06-17'', ''2024-06-11>2024-06-17''] \<noteq> []
   \<and> list_all is_datepair [''2024-06-10>2024-06-17'', ''2024-06-11>2024-06-17'']
   \<and> pricesForDatepairs sample_parseFloat sample_numberFormat
        [''2024-06-10>2024-06-17'', ''2024-06-11>2024-06-17'']
        [priced_response ''512.30'', UpRejected (ResponseError 500)]
        [Settle 1, Settle 0, Finally 0, Finally 1]
      = Some \<lparr>flights = [(''2024-06-11>2024-06-17'', EmptyObject),
                        (''2024-06-10>2024-06-17'', PriceResult ''512.30'' ''EUR 512.30'')],
            responseCount = 2, errorCount = 1,
            promise = Some (Fulfilled [(''2024-06-11>2024-06-17'', EmptyObject),
                        (''2024-06-10>2024-06-17'', PriceResult ''512.30'' ''EUR 512.30'')]),
            jobs = [Finished, Finished]\<rparr>
   \<and> fst ` set [(''2024-06-11>2024-06-17'', EmptyObject :: string price_result),
                  (''2024-06-10>2024-06-17'', PriceResult ''512.30'' ''EUR 512.30'')]
        = set [''2024-06-10>2024-06-17'', ''2024-06-11>2024-06-17'']"
proof -
  have ne: "[''2024-06-10>2024-06-17'', ''2024-06-11>2024-06-17''] \<noteq> []" by simp
  note keys = pricesForDatepairs_full_barrier[OF ne two_datepairs run_two_mixed,
      THEN conjunct2, THEN conjunct1]
  show ?thesis
    using ne two_datepairs run_two_mixed keys by (simp add: all_settled_def)
qed

text \<open>
  Claim C2 as stated fails for a query that succeeds with an answer holding no offers:
  \<^verbatim>\<open>response.data[0].price\<close> throws, the \<^verbatim>\<open>.catch\<close> callback counts an error and the
  pair maps to the empty object.
\<close>

theorem pricesForDatepairs_no_offers_is_empty:
  "pricesForDatepairs sample_parseFloat sample_numberFormat
     [''2024-06-10>2024-06-17''] [no_offers_response] [Settle 0, Finally 0]
   = Some \<lparr>flights = [(''2024-06-10>2024-06-17'', EmptyObject)],
            responseCount = 1, errorCount = 1,
            promise = Some (Fulfilled [(''2024-06-10>2024-06-17'', EmptyObject)]),
            jobs = [Finished]\<rparr>"
  by (simp add: scan_eval)

lemma handler_response:
  assumes "flights_for_datepairs_handler parseFloat numberFormat dps ups es = Some response"
  shows "\<exists>st. pricesForDatepairs parseFloat numberFormat dps ups es = Some st
            \<and> dps \<noteq> [] \<and> all_settled st
            \<and> response = \<lparr>status = 200, payload = FlightsValue (flights st)\<rparr>"
proof -
  from assms obtain st where r: "pricesForDatepairs parseFloat numberFormat dps ups es = Some st"
    by (auto simp: flights_for_datepairs_handler_def split: option.splits)
  have p: "promise st = (if dps \<noteq> [] \<and> all_settled st then Some (Fulfilled (flights st)) else None)"
    using pricesForDatepairs_inv[OF r] by (rule inv_promise)
  show ?thesis
  proof (cases "dps \<noteq> [] \<and> all_settled st")
    case True
    with assms r p show ?thesis by (simp add: flights_for_datepairs_handler_def)
  next
    case False
    with assms r p show ?thesis by (simp add: flights_for_datepairs_handler_def)
  qed
qed

lemma card_less_if_repeated: "\<not> distinct xs \<Longrightarrow> card (set xs) < length xs"
  using card_length[of xs] card_distinct[of xs] by (cases "card (set xs) = length xs") auto

text \<open>
  Claim C9, as the code has it. For a posted list of date pairs
  \<^verbatim>\<open>YYYY-MM-DD>YYYY-MM-DD\<close>, when the endpoint answers, the status is 200 and the body
  has one entry for each different date pair of the list: as many entries as the list
  has elements when no pair is repeated, fewer when one is.
\<close>

theorem flights_for_datepairs_entries:
  assumes "flights_for_datepairs_handler parseFloat numberFormat datepairs upstreams events
             = Some response"
    and "list_all is_datepair datepairs"
  shows "status response = 200
       \<and> (\<exists>fl. payload response = FlightsValue fl
              \<and> fst ` set fl = set datepairs
              \<and> distinct (map fst fl)
              \<and> length fl = card (set datepairs)
              \<and> (distinct datepairs \<longrightarrow> length fl = length datepairs)
              \<and> (\<not> distinct datepairs \<longrightarrow> length fl < length datepairs))"
proof -
  from handler_response[OF assms(1)] obtain st
    where r: "pricesForDatepairs parseFloat numberFormat datepairs upstreams events = Some st"
      and s: "all_settled st"
      and resp: "response = \<lparr>status = 200, payload = FlightsValue (flights st)\<rparr>"
    by blast
  have inv: "scan_inv datepairs st"
    using r by (rule pricesForDatepairs_inv)
  have keys: "fst ` set (flights st) = set datepairs"
    using all_settled_keys[OF inv s] datepairs_no_proto[OF assms(2)] by simp
  have dist: "distinct (map fst (flights st))"
    using inv by (rule inv_distinct_keys)
  have "length (flights st) = card (set (map fst (flights st)))"
    using dist distinct_card[of "map fst (flights st)"] by simp
  then have len: "length (flights st) = card (set datepairs)"
    using keys by simp
  have d1: "distinct datepairs \<longrightarrow> length (flights st) = length datepairs"
    using len by (simp add: distinct_card)
  have d2: "\<not> distinct datepairs \<longrightarrow> length (flights st) < length datepairs"
    using len card_less_if_repeated[of datepairs] by simp
  show ?thesis
    using resp keys dist len d1 d2 by simp
qed

lemma handler_two_mixed:
  "flights_for_datepairs_handler sample_parseFloat sample_numberFormat
     [''2024-06-10>2024-06-17'', ''2024-06-11>2024-06-17'']
     [priced_response ''512.30'', UpRejected (ResponseError 500)]
     [Settle 1, Settle 0, Finally 0, Finally 1]
   = Some \<lparr>status = 200,
            payload = FlightsValue [(''2024-06-11>2024-06-17'', EmptyObject),
                        (''2024-06-10>2024-06-17'', PriceResult ''512.30'' ''EUR 512.30'')]\<rparr>"
  unfolding flights_for_datepairs_handler_def run_two_mixed by simp

theorem flights_for_datepairs_entries_witness:
  "flights_for_datepairs_handler sample_parseFloat sample_numberFormat
     [''2024-06-10>2024-06-17'', ''2024-06-11>2024-06-17'']
     [priced_response ''512.30'', UpRejected (ResponseError 500)]
     [Settle 1, Settle 0, Finally 0, Finally 1]
   = Some \<lparr>status = 200,
            payload = FlightsValue [(''2024-06-11>2024-06-17'', EmptyObject),
                        (''2024-06-10>2024-06-17'', PriceResult ''512.30'' ''EUR 512.30'')]\<rparr>
   \<and> list_all is_datepair [''2024-06-10>2024-06-17'', ''2024-06-11>2024-06-17'']
   \<and> length [(''2024-06-11>2024-06-17'', EmptyObject :: string price_result),
              (''2024-06-10>2024-06-17'', PriceResult ''512.30'' ''EUR 512.30'')]
        = card (set [''2024-06-10>2024-06-17'', ''2024-06-11>2024-06-17''])"
  using flights_for_datepairs_entries[OF handler_two_mixed two_datepairs] handler_two_mixed
    two_datepairs
  by simp

text \<open>
  Claim C9 as stated fails for a list that repeats a pair: two elements, one entry.
\<close>

theorem flights_for_datepairs_repeated_pair:
  "flights_for_datepairs_handler sample_parseFloat sample_numberFormat
     [''2024-06-10>2024-06-17'', ''2024-06-10>2024-06-17'']
     [priced_response ''512.30'', priced_response ''512.30'']
     [Settle 0, Finally 0, Settle 1, Finally 1]
   = Some \<lparr>status = 200,
            payload = FlightsValue
              [(''2024-06-10>2024-06-17'', PriceResult ''512.30'' ''EUR 512.30'')]\<rparr>"
  by (simp add: flights_for_datepairs_handler_def scan_eval)


lemma step_empty: "step parseFloat numberFormat [] ups e st = None"
  by (cases e) simp_all

lemma run_empty:
  "run parseFloat numberFormat [] ups es st = Some st' \<Longrightarrow> es = [] \<and> st' = st"
  by (cases es) (simp_all add: step_empty)

lemma run_append:
  "run parseFloat numberFormat dps ups (es @ es') st
     = (case run parseFloat numberFormat dps ups es st of
          None \<Rightarrow> None
        | Some st1 \<Rightarrow> run parseFloat numberFormat dps ups es' st1)"
  by (induction es arbitrary: st) (simp_all split: option.split)

lemma in_order_Suc: "in_order (Suc n) = in_order n @ [Settle n, Finally n]"
  by (simp add: in_order_def)

lemma run_in_order:
  assumes "length ups = length dps"
  shows "n \<le> length dps \<Longrightarrow>
         \<exists>st. run parseFloat numberFormat dps ups (in_order n) (pricesForDatepairs_start dps) = Some st
              \<and> length (jobs st) = length dps
              \<and> (\<forall>j<length dps. jobs st ! j = (if j < n then Finished else Scheduled))"
proof (induction n)
  case 0
  then show ?case by (simp add: in_order_def pricesForDatepairs_start_def)
next
  case (Suc n)
  then obtain st where r: "run parseFloat numberFormat dps ups (in_order n) (pricesForDatepairs_start dps) = Some st"
    and len: "length (jobs st) = length dps"
    and js: "\<forall>j<length dps. jobs st ! j = (if j < n then Finished else Scheduled)"
    by auto
  from Suc.prems have n: "n < length dps" by simp
  let ?s1 = "(on_settle parseFloat numberFormat (dps ! n) (ups ! n) st)\<lparr>jobs := (jobs st)[n := Recorded]\<rparr>"
  let ?s2 = "(on_finally dps ?s1)\<lparr>jobs := (jobs ?s1)[n := Finished]\<rparr>"
  have s1: "step parseFloat numberFormat dps ups (Settle n) st = Some ?s1"
    using n js assms by simp
  have j1: "jobs ?s1 = (jobs st)[n := Recorded]" by simp
  have s2: "step parseFloat numberFormat dps ups (Finally n) ?s1 = Some ?s2"
    using n len assms by simp
  have j2: "jobs ?s2 = (jobs st)[n := Finished]" by simp
  have "run parseFloat numberFormat dps ups (in_order (Suc n)) (pricesForDatepairs_start dps) = Some ?s2"
    unfolding in_order_Suc run_append r using s1 s2 by simp
  moreover have "length (jobs ?s2) = length dps" using len by simp
  moreover have "\<forall>j<length dps. jobs ?s2 ! j = (if j < Suc n then Finished else Scheduled)"
    unfolding j2 using js len n by (auto simp: nth_list_update less_Suc_eq)
  ultimately show ?case by blast
qed

lemma in_order_settles:
  assumes "length ups = length dps"
  shows "\<exists>st. pricesForDatepairs parseFloat numberFormat dps ups (in_order (length dps)) = Some st
             \<and> all_settled st"
proof -
  from run_in_order[OF assms, of "length dps" parseFloat numberFormat]
  obtain st where r: "run parseFloat numberFormat dps ups (in_order (length dps)) (pricesForDatepairs_start dps) = Some st"
    and len: "length (jobs st) = length dps"
    and js: "\<forall>j<length dps. jobs st ! j = (if j < length dps then Finished else Scheduled)"
    by auto
  have "all_settled st" using len js by (simp add: all_settled_def list_all_length)
  with r show ?thesis by (auto simp: pricesForDatepairs_def)
qed

text \<open>
  Claim C10. For the empty list no callback can ever run, the promise stays pending and
  the endpoint never answers. For a non-empty list with an outcome for every query, the
  callbacks can all run (one order is \<open>in_order\<close>), and in any order, once all have run
  the promise is fulfilled.
\<close>

theorem pricesForDatepairs_empty_never_settles:
  "(pricesForDatepairs parseFloat numberFormat [] upstreams events = Some st
      \<longrightarrow> events = [] \<and> promise st = None)
   \<and> flights_for_datepairs_handler parseFloat numberFormat [] upstreams events = None
   \<and> (datepairs \<noteq> [] \<and> length upstreams' = length datepairs \<longrightarrow>
        (\<exists>st'. pricesForDatepairs parseFloat numberFormat datepairs upstreams'
                  (in_order (length datepairs)) = Some st'
              \<and> all_settled st'))
   \<and> (datepairs \<noteq> []
        \<and> pricesForDatepairs parseFloat numberFormat datepairs upstreams' events' = Some st'
        \<and> all_settled st'
      \<longrightarrow> promise st' = Some (Fulfilled (flights st')))"
proof -
  have e1: "pricesForDatepairs parseFloat numberFormat [] upstreams events = Some st
      \<longrightarrow> events = [] \<and> promise st = None"
    by (auto simp: pricesForDatepairs_def pricesForDatepairs_start_def dest!: run_empty)
  have e2: "flights_for_datepairs_handler parseFloat numberFormat [] upstreams events = None"
    by (auto simp: flights_for_datepairs_handler_def pricesForDatepairs_def
        pricesForDatepairs_start_def split: option.splits dest!: run_empty)
  have n1: "datepairs \<noteq> [] \<and> length upstreams' = length datepairs \<longrightarrow>
        (\<exists>st'. pricesForDatepairs parseFloat numberFormat datepairs upstreams'
                  (in_order (length datepairs)) = Some st'
              \<and> all_settled st')"
    using in_order_settles[of upstreams' datepairs parseFloat numberFormat] by simp
  have n2: "datepairs \<noteq> []
        \<and> pricesForDatepairs parseFloat numberFormat datepairs upstreams' events' = Some st'
        \<and> all_settled st'
      \<longrightarrow> promise st' = Some (Fulfilled (flights st'))"
  proof (intro impI)
    assume a: "datepairs \<noteq> []
        \<and> pricesForDatepairs parseFloat numberFormat datepairs upstreams' events' = Some st'
        \<and> all_settled st'"
    then have "pricesForDatepairs parseFloat numberFormat datepairs upstreams' events' = Some st'"
      by simp
    then have "scan_inv datepairs st'" by (rule pricesForDatepairs_inv)
    from inv_promise[OF this] a show "promise st' = Some (Fulfilled (flights st'))" by simp
  qed
  show ?thesis
    by (intro conjI e1 e2 n1 n2)
qed

theorem pricesForDatepairs_empty_never_settles_witness:
  "pricesForDatepairs sample_parseFloat sample_numberFormat [] [] []
     = Some (pricesForDatepairs_start [])
   \<and> promise (pricesForDatepairs_start [] :: string scan_state) = None
   \<and> flights_for_datepairs_handler sample_parseFloat sample_numberFormat [] [] [] = None
   \<and> [''2024-06-10>2024-06-17''] \<noteq> []
   \<and> pricesForDatepairs sample_parseFloat sample_numberFormat
        [''2024-06-10>2024-06-17''] [priced_response ''512.30''] [Settle 0, Finally 0]
      = Some \<lparr>flights = [(''2024-06-10>2024-06-17'', PriceResult ''512.30'' ''EUR 512.30'')],
            responseCount = 1, errorCount = 0,
            promise = Some (Fulfilled
              [(''2024-06-10>2024-06-17'', PriceResult ''512.30'' ''EUR 512.30'')]),
            jobs = [Finished]\<rparr>"
proof -
  have r0: "pricesForDatepairs sample_parseFloat sample_numberFormat [] [] []
     = Some (pricesForDatepairs_start [])"
    by (simp add: pricesForDatepairs_def)
  show ?thesis
    using r0 run_one_priced
      pricesForDatepairs_empty_never_settles[of sample_parseFloat sample_numberFormat "[]" "[]"
        "pricesForDatepairs_start []" "[''2024-06-10>2024-06-17'']" "[priced_response ''512.30'']"]
    by simp
qed

end
